theory Spec2Isabelle
  imports Main "HOL-Library.Sublist" "HOL-Library.Word"
begin

unbundle bit_operations_syntax

section \<open>A shallow embedding of the DewartPG facade (src/index.js, lines 1--200)\<close>

text \<open>
  The source file holds three versions of the class; the first one (lines 1--200), the
  only one with the static registry, is the one modelled here.

  The class \<open>DewartPG\<close> wraps a connection pool of the \<open>pg\<close> package. Everything the
  class does is observable only through the calls it makes on its collaborators (the pool,
  a leased client, the console, the caller's handlers), so a method is modelled by the
  sequence of those calls, in the order in which they happen, together with the value the
  method returns or the error it throws. What the collaborators answer (whether the pool
  hands out a client, whether the database accepts a statement) is an input of the model.
\<close>

subsection \<open>Values, errors and observable events\<close>

text \<open>
  JavaScript values as far as the class handles them: \<open>undefined\<close>, \<open>false\<close>, strings
  and the result object of a statement (its rows, as text).
\<close>

datatype jsval = JUndefined | JFalse | JString string | JResult "string list"

text \<open>
  The errors that can arise. \<open>SecretMissing\<close> is the \<open>Error\<close> thrown at lines 115 and 148,
  \<open>HashConfigMissing\<close> the one thrown at line 197; \<open>TypeError\<close> is what the language
  raises for a property access or a call on \<open>undefined\<close>; \<open>SyntaxError\<close> is what the
  \<open>RegExp\<close> constructor raises for an invalid pattern; \<open>DigestError\<close> is what
  \<open>createHmac\<close> and \<open>update\<close> raise; the last two come from the pool and the database.
\<close>

datatype js_error =
    SecretMissing
  | HashConfigMissing
  | TypeError
  | SyntaxError string
  | DigestError string
  | ConnectionError string
  | QueryError string

datatype event =
    ConsoleLogQuery string "jsval list"
  | ConsoleLogParams "(string \<times> jsval) list"
  | ConsoleLogError js_error
  | ConsoleLogText string
  | ConsoleError string js_error
  | Lease
  | DbQuery string "jsval list"
  | Release
  | Callback jsval
  | ErrorHandler js_error
  | RaisedInCallback js_error
  | PoolEnd nat

subsection \<open>Configuration and the static registry\<close>

record hash_config =
  secret :: "string option"
  algorithm :: "string option"

text \<open>
  The constructor's \<open>input\<close> object, kept as \<open>this._configs\<close>. \<open>None\<close> is an absent
  (undefined) property. The connection settings \<open>input.configs\<close> are handed to the pool
  unread and are left out.
\<close>

record input =
  hash :: "hash_config option"
  logs :: "bool option"

record facade =
  fid :: nat
  configs :: input

text \<open>
  \<open>constructor(input)\<close>, lines 25--29: the new object is appended to the static array
  \<open>DewartPG._connections\<close>. An object is identified by its position of creation.
\<close>

definition constructor :: "input \<Rightarrow> facade list \<Rightarrow> facade list" where
  "constructor inp connections = connections @ [\<lparr>fid = length connections, configs = inp\<rparr>]"

fun constructions :: "input list \<Rightarrow> facade list \<Rightarrow> facade list" where
  "constructions [] connections = connections"
| "constructions (inp # inps) connections = constructions inps (constructor inp connections)"

text \<open>\<open>close(callback)\<close>, lines 42--46, called without a callback: the pool is ended.\<close>

definition close :: "facade \<Rightarrow> event list" where
  "close f = [PoolEnd (fid f)]"

text \<open>
  \<open>DewartPG.length\<close> is the \<open>length\<close> property of the class, which the language defines
  as the number of formal parameters of its constructor: \<open>constructor(input)\<close> has one.
\<close>

definition DewartPG_length :: nat where
  "DewartPG_length = 1"

text \<open>
  \<open>static disconnect()\<close>, lines 33--38. The loop runs over \<open>i = 0, ..., DewartPG.length - 1\<close>;
  \<open>DewartPG._connections[i]\<close> is \<open>undefined\<close> past the end of the array, and calling
  \<open>close\<close> on it throws. The result is the error thrown (with the calls made before it)
  or the calls made by a run that completes.
\<close>

fun disconnect_loop :: "facade list \<Rightarrow> nat list \<Rightarrow> event list \<Rightarrow> (js_error \<times> event list) + event list" where
  "disconnect_loop connections [] tr = Inr tr"
| "disconnect_loop connections (i # is) tr =
     (if i < length connections
      then disconnect_loop connections is (tr @ close (connections ! i))
      else Inl (TypeError, tr))"

definition disconnect :: "facade list \<Rightarrow> (js_error \<times> event list) + event list" where
  "disconnect connections =
     (case disconnect_loop connections [0..<DewartPG_length] [] of
        Inl e \<Rightarrow> Inl e
      | Inr tr \<Rightarrow> Inr (tr @ [ConsoleLogText ''| All connections are disabled |'']))"

text \<open>The objects whose pool a run of \<open>disconnect\<close> has ended, thrown or not.\<close>

fun ended :: "event list \<Rightarrow> nat list" where
  "ended [] = []"
| "ended (PoolEnd n # es) = n # ended es"
| "ended (_ # es) = ended es"

definition closed_by :: "(js_error \<times> event list) + event list \<Rightarrow> nat list" where
  "closed_by r = (case r of Inl (e, tr) \<Rightarrow> ended tr | Inr tr \<Rightarrow> ended tr)"

definition throws :: "(js_error \<times> event list) + event list \<Rightarrow> bool" where
  "throws r = (case r of Inl _ \<Rightarrow> True | Inr _ \<Rightarrow> False)"


subsection \<open>The runtime: regular expressions and digests\<close>

text \<open>
  Two services of the JavaScript runtime are used by the templated queries: the \<open>RegExp\<close>
  engine behind \<open>String.prototype.replace\<close>, and \<open>createHmac\<close> of the \<open>crypto\<close> module.
  They are not code of this class. The model fixes what is needed to state the behaviour
  of the class (patterns without syntax characters, patterns whose only syntax characters
  are dots, and the digest \<open>sha256\<close>) and takes the rest as a parameter:
  \<^item> \<open>regexp_replace rt pattern replacement subject\<close> is
    \<open>subject.replace(new RegExp(pattern, "g"), replacement)\<close> for any other pattern: the
    new string, or the \<open>SyntaxError\<close> of the constructor;
  \<^item> \<open>other_digests rt algorithm\<close> is the keyed digest (key, data to hex text) that
    \<open>createHmac\<close> offers under a name other than \<open>sha256\<close>, or \<open>None\<close> when it rejects the
    name.
\<close>

record runtime =
  regexp_replace :: "string \<Rightarrow> string \<Rightarrow> string \<Rightarrow> js_error + string"
  other_digests :: "string \<Rightarrow> (string \<Rightarrow> string \<Rightarrow> string) option"

subsubsection \<open>Replacing every literal occurrence\<close>

text \<open>
  A global replace with a pattern that matches one fixed text scans the subject from the
  left; where the text occurs, the replacement is written and the scan resumes behind the
  occurrence (the replacement itself is not rescanned).
\<close>

function replace_all :: "string \<Rightarrow> string \<Rightarrow> string \<Rightarrow> string" where
  "replace_all p r [] = []"
| "replace_all p r (c # cs) =
     (if p \<noteq> [] \<and> prefix p (c # cs)
      then r @ replace_all p r (drop (length p) (c # cs))
      else c # replace_all p r cs)"
  by pat_completeness auto
termination
  by (relation "measure (\<lambda>(p, r, s). length s)") (auto simp: neq_Nil_conv)

text \<open>
  The syntax characters of a pattern (ECMAScript \<open>SyntaxCharacter\<close>): a field name without
  them is a sequence of pattern characters, each matching itself.
\<close>

definition syntax_character :: "char \<Rightarrow> bool" where
  "syntax_character c = (c \<in> set ''^$.*+?()[]{}|'' \<or> c = CHR 0x5C)"

definition plain :: "string \<Rightarrow> bool" where
  "plain n = list_all (\<lambda>c. \<not> syntax_character c) n"

subsubsection \<open>Replacing every match of a pattern with wildcards\<close>

text \<open>
  A dot in a pattern (built without the \<open>s\<close> flag) matches any one character but a line
  terminator. A pattern made of dots and of characters that match themselves has matches of
  one length only. The global replace scans the subject from the left; where the pattern
  matches, the replacement is written and the scan resumes behind the match.
\<close>

fun wild_match :: "string \<Rightarrow> string \<Rightarrow> bool" where
  "wild_match [] s = True"
| "wild_match (p # ps) [] = False"
| "wild_match (p # ps) (c # cs) =
     ((p = c \<or> (p = CHR ''.'' \<and> c \<noteq> CHR 0x0A \<and> c \<noteq> CHR 0x0D)) \<and> wild_match ps cs)"

function wild_replace :: "string \<Rightarrow> string \<Rightarrow> string \<Rightarrow> string" where
  "wild_replace p r [] = []"
| "wild_replace p r (c # cs) =
     (if p \<noteq> [] \<and> wild_match p (c # cs)
      then r @ wild_replace p r (drop (length p) (c # cs))
      else c # wild_replace p r cs)"
  by pat_completeness auto
termination
  by (relation "measure (\<lambda>(p, r, s). length s)") (auto simp: neq_Nil_conv)

text \<open>A field name whose only syntax characters are dots.\<close>

definition dots_only :: "string \<Rightarrow> bool" where
  "dots_only n = plain (filter (\<lambda>c. c \<noteq> CHR ''.'') n)"

subsubsection \<open>The markers of a field\<close>

datatype marker = NameMarker | ValueMarker

text \<open>The template literals \<open>`{%${name}%}`\<close> and \<open>`{&${name}&}`\<close> of lines 121 and 154.\<close>

fun marker_text :: "marker \<Rightarrow> string \<Rightarrow> string" where
  "marker_text NameMarker n = ''{%'' @ n @ ''%}''"
| "marker_text ValueMarker n = ''{&'' @ n @ ''&}''"

text \<open>
  \<open>query.replace(new RegExp(marker, "g"), replacement)\<close>. The field name goes into the
  pattern as it is. When it has no syntax character the pattern is the marker's text
  (a brace that does not open a quantifier stands for itself), it has no capture group, and
  the replacement (the name itself, or \<open>$\<close> followed by digits) is inserted as it is. When
  its only syntax characters are dots, the same holds but for the dots, which are
  wildcards. Any other name makes a pattern for the runtime's engine to interpret.
\<close>

definition replace_marker :: "runtime \<Rightarrow> marker \<Rightarrow> string \<Rightarrow> string \<Rightarrow> string \<Rightarrow> js_error + string" where
  "replace_marker rt m n replacement subject =
     (if plain n then Inr (replace_all (marker_text m n) replacement subject)
      else if dots_only n then Inr (wild_replace (marker_text m n) replacement subject)
      else regexp_replace rt (marker_text m n) replacement subject)"

text \<open>The decimal text of a counter, as a template literal writes a number.\<close>

definition digit :: "nat \<Rightarrow> char" where
  "digit d = ''0123456789'' ! d"

fun decimal :: "nat \<Rightarrow> string" where
  "decimal n = (if n < 10 then [digit n] else decimal (n div 10) @ [digit (n mod 10)])"

declare decimal.simps [simp del]

subsubsection \<open>SHA-256 (FIPS 180-4) and HMAC (RFC 2104)\<close>

type_synonym w32 = "32 word"

text \<open>
  The round constants and the initial hash value of the standard (the first 32 bits of
  the fractional parts of the cube roots, respectively square roots, of the first primes),
  in decimal.
\<close>

definition K256 :: "w32 list" where
  "K256 = [
     1116352408, 1899447441, 3049323471, 3921009573, 961987163, 1508970993,
     2453635748, 2870763221, 3624381080, 310598401, 607225278, 1426881987,
     1925078388, 2162078206, 2614888103, 3248222580, 3835390401, 4022224774,
     264347078, 604807628, 770255983, 1249150122, 1555081692, 1996064986,
     2554220882, 2821834349, 2952996808, 3210313671, 3336571891, 3584528711,
     113926993, 338241895, 666307205, 773529912, 1294757372, 1396182291,
     1695183700, 1986661051, 2177026350, 2456956037, 2730485921, 2820302411,
     3259730800, 3345764771, 3516065817, 3600352804, 4094571909, 275423344,
     430227734, 506948616, 659060556, 883997877, 958139571, 1322822218,
     1537002063, 1747873779, 1955562222, 2024104815, 2227730452, 2361852424,
     2428436474, 2756734187, 3204031479, 3329325298]"

definition H256 :: "w32 list" where
  "H256 = [1779033703, 3144134277, 1013904242, 2773480762,
           1359893119, 2600822924, 528734635, 1541459225]"

definition rotr :: "nat \<Rightarrow> w32 \<Rightarrow> w32" where
  "rotr n w = drop_bit n w OR push_bit (32 - n) w"

definition ssig0 :: "w32 \<Rightarrow> w32" where
  "ssig0 x = rotr 7 x XOR rotr 18 x XOR drop_bit 3 x"

definition ssig1 :: "w32 \<Rightarrow> w32" where
  "ssig1 x = rotr 17 x XOR rotr 19 x XOR drop_bit 10 x"

definition bsig0 :: "w32 \<Rightarrow> w32" where
  "bsig0 x = rotr 2 x XOR rotr 13 x XOR rotr 22 x"

definition bsig1 :: "w32 \<Rightarrow> w32" where
  "bsig1 x = rotr 6 x XOR rotr 11 x XOR rotr 25 x"

definition ch :: "w32 \<Rightarrow> w32 \<Rightarrow> w32 \<Rightarrow> w32" where
  "ch x y z = (x AND y) XOR (NOT x AND z)"

definition maj :: "w32 \<Rightarrow> w32 \<Rightarrow> w32 \<Rightarrow> w32" where
  "maj x y z = (x AND y) XOR (x AND z) XOR (y AND z)"

text \<open>
  The message schedule, newest word first: from the sixteen words \<open>W\<^sub>t\<^sub>-\<^sub>1, ..., W\<^sub>t\<^sub>-\<^sub>1\<^sub>6\<close>
  the next one is \<open>\<sigma>\<^sub>1(W\<^sub>t\<^sub>-\<^sub>2) + W\<^sub>t\<^sub>-\<^sub>7 + \<sigma>\<^sub>0(W\<^sub>t\<^sub>-\<^sub>1\<^sub>5) + W\<^sub>t\<^sub>-\<^sub>1\<^sub>6\<close>.
\<close>

fun next_word :: "w32 list \<Rightarrow> w32" where
  "next_word (w1 # w2 # w3 # w4 # w5 # w6 # w7 # w8 # w9 # w10 # w11 # w12 # w13 # w14 # w15 # w16 # ws) =
     ssig1 w2 + w7 + ssig0 w15 + w16"
| "next_word _ = 0"

fun schedule :: "nat \<Rightarrow> w32 list \<Rightarrow> w32 list" where
  "schedule 0 ws = ws"
| "schedule (Suc n) ws = schedule n (next_word ws # ws)"

text \<open>
  One round on the working variables \<open>a, ..., h\<close>, with \<open>T\<^sub>1\<close> and \<open>T\<^sub>2\<close> computed first and
  then shifted in.
\<close>

fun shift_in :: "w32 \<Rightarrow> w32 \<Rightarrow> w32 list \<Rightarrow> w32 list" where
  "shift_in t1 t2 [a, b, c, d, e, f, g, h] = [t1 + t2, a, b, c, d + t1, e, f, g]"
| "shift_in t1 t2 st = st"

fun round1 :: "w32 \<Rightarrow> w32 \<Rightarrow> w32 list \<Rightarrow> w32 list" where
  "round1 k w [a, b, c, d, e, f, g, h] =
     shift_in (h + bsig1 e + ch e f g + k + w) (bsig0 a + maj a b c) [a, b, c, d, e, f, g, h]"
| "round1 k w st = st"

fun rounds :: "w32 list \<Rightarrow> w32 list \<Rightarrow> w32 list \<Rightarrow> w32 list" where
  "rounds (k # ks) (w # ws) st = rounds ks ws (round1 k w st)"
| "rounds _ _ st = st"

fun add_words :: "w32 list \<Rightarrow> w32 list \<Rightarrow> w32 list" where
  "add_words (x # xs) (y # ys) = (x + y) # add_words xs ys"
| "add_words _ _ = []"

definition compress :: "w32 list \<Rightarrow> w32 list \<Rightarrow> w32 list" where
  "compress st blk = add_words st (rounds K256 (rev (schedule 48 (rev blk))) st)"

fun be32 :: "8 word list \<Rightarrow> w32 list" where
  "be32 (a # b # c # d # r) =
     (push_bit 24 (ucast a) OR push_bit 16 (ucast b) OR push_bit 8 (ucast c) OR ucast d) # be32 r"
| "be32 _ = []"

fun blocks :: "w32 list \<Rightarrow> w32 list list" where
  "blocks [] = []"
| "blocks (w # ws) = take 16 (w # ws) # blocks (drop 16 (w # ws))"

definition pad :: "8 word list \<Rightarrow> 8 word list" where
  "pad m =
     (let l = length m; z = (119 - l mod 64) mod 64; bits = (of_nat (8 * l) :: 64 word)
      in m @ [0x80] @ replicate z 0 @ map (\<lambda>i. ucast (drop_bit (8 * (7 - i)) bits)) [0..<8])"

definition unbe32 :: "w32 \<Rightarrow> 8 word list" where
  "unbe32 w = [ucast (drop_bit 24 w), ucast (drop_bit 16 w), ucast (drop_bit 8 w), ucast w]"

definition sha256 :: "8 word list \<Rightarrow> 8 word list" where
  "sha256 m = concat (map unbe32 (foldl compress H256 (blocks (be32 (pad m)))))"

definition hmac_sha256 :: "8 word list \<Rightarrow> 8 word list \<Rightarrow> 8 word list" where
  "hmac_sha256 key msg =
     (let k0 = (if 64 < length key then sha256 key else key);
          k = k0 @ replicate (64 - length k0) 0
      in sha256 (map (\<lambda>b. b XOR 0x5c) k @ sha256 (map (\<lambda>b. b XOR 0x36) k @ msg)))"

definition hexdigit :: "nat \<Rightarrow> char" where
  "hexdigit n = ''0123456789abcdef'' ! n"

definition hex :: "8 word list \<Rightarrow> string" where
  "hex bs = concat (map (\<lambda>b. [hexdigit (unat b div 16), hexdigit (unat b mod 16)]) bs)"

text \<open>A string is the list of the bytes of its UTF-8 encoding, which is what gets hashed.\<close>

definition bytes :: "string \<Rightarrow> 8 word list" where
  "bytes s = map (\<lambda>c. of_nat (of_char c)) s"

definition hex_hmac_sha256 :: "string \<Rightarrow> string \<Rightarrow> string" where
  "hex_hmac_sha256 key msg = hex (hmac_sha256 (bytes key) (bytes msg))"

subsubsection \<open>Words as bit lists\<close>

text \<open>
  To compute a digest inside the logic, a 32-bit word is written as the list of its bits,
  least significant first, and the operations of the hash function are carried out on
  such lists.
\<close>

definition wv :: "bool list \<Rightarrow> w32" where
  "wv bs = horner_sum of_bool 2 bs"

definition nv :: "bool list \<Rightarrow> nat" where
  "nv bs = horner_sum of_bool 2 bs"

fun xorl :: "bool list \<Rightarrow> bool list \<Rightarrow> bool list" where
  "xorl (a # as) (b # bs) = (a \<noteq> b) # xorl as bs"
| "xorl _ _ = []"

fun andl :: "bool list \<Rightarrow> bool list \<Rightarrow> bool list" where
  "andl (a # as) (b # bs) = (a \<and> b) # andl as bs"
| "andl _ _ = []"

fun orl :: "bool list \<Rightarrow> bool list \<Rightarrow> bool list" where
  "orl (a # as) (b # bs) = (a \<or> b) # orl as bs"
| "orl _ _ = []"

fun notl :: "bool list \<Rightarrow> bool list" where
  "notl (a # as) = (\<not> a) # notl as"
| "notl [] = []"

text \<open>The ripple-carry adder; the carry out of the last position is dropped.\<close>

fun addc :: "bool \<Rightarrow> bool list \<Rightarrow> bool list \<Rightarrow> bool list" where
  "addc c (a # as) (b # bs) = ((a \<noteq> b) \<noteq> c) # addc ((a \<and> b) \<or> (c \<and> (a \<noteq> b))) as bs"
| "addc c _ _ = []"

text \<open>The bits of a binary numeral, and a list cut or filled up to the length of another.\<close>

fun num_bits :: "num \<Rightarrow> bool list" where
  "num_bits num.One = [True]"
| "num_bits (num.Bit0 k) = False # num_bits k"
| "num_bits (num.Bit1 k) = True # num_bits k"

fun fit_like :: "unit list \<Rightarrow> bool list \<Rightarrow> bool list" where
  "fit_like [] xs = []"
| "fit_like (t # ts) [] = False # fit_like ts []"
| "fit_like (t # ts) (x # xs) = x # fit_like ts xs"

text \<open>
  \<open>createHmac(algorithm, secret).update(value).digest("hex")\<close>, line 199: \<open>createHmac\<close>
  throws for a digest name it does not know, \<open>update\<close> throws a \<open>TypeError\<close> for data that is
  not a string.
\<close>

definition createHmac :: "runtime \<Rightarrow> string \<Rightarrow> (string \<Rightarrow> string \<Rightarrow> string) option" where
  "createHmac rt alg = (if alg = ''sha256'' then Some hex_hmac_sha256 else other_digests rt alg)"

definition hmac_update_digest :: "runtime \<Rightarrow> string \<Rightarrow> string \<Rightarrow> jsval \<Rightarrow> js_error + string" where
  "hmac_update_digest rt alg key v =
     (case createHmac rt alg of
        None \<Rightarrow> Inl (DigestError alg)
      | Some h \<Rightarrow> (case v of JString s \<Rightarrow> Inr (h key s) | _ \<Rightarrow> Inl TypeError))"

subsection \<open>Template parameters and their resolution\<close>

text \<open>
  An object is the list of its own enumerable properties in the order in which
  \<open>Object.keys\<close> enumerates them; reading a property that is not there gives \<open>undefined\<close>.
\<close>

type_synonym js_object = "(string \<times> jsval) list"

definition keys :: "js_object \<Rightarrow> string list" where
  "keys obj = map fst obj"

definition get :: "js_object \<Rightarrow> string \<Rightarrow> jsval" where
  "get obj k = (case map_of obj k of None \<Rightarrow> JUndefined | Some v \<Rightarrow> v)"

text \<open>The \<open>values\<close> argument of \<open>hashQuery\<close>: \<open>{hash: {...}, other: {...}}\<close>, either part optional.\<close>

record template_values =
  hash_fields :: "js_object option"
  other_fields :: "js_object option"

text \<open>
  \<open>_hash(value)\<close>, lines 194--200. A constructed object always has \<open>_configs\<close>; reading
  \<open>.secret\<close> of an absent \<open>hash\<close> property throws a \<open>TypeError\<close>.
\<close>

definition private_hash :: "runtime \<Rightarrow> input \<Rightarrow> jsval \<Rightarrow> js_error + string" where
  "private_hash rt cfg v =
     (case hash cfg of
        None \<Rightarrow> Inl TypeError
      | Some h \<Rightarrow>
          (case (secret h, algorithm h) of
             (Some k, Some a) \<Rightarrow> hmac_update_digest rt a k v
           | _ \<Rightarrow> Inl HashConfigMissing))"

text \<open>\<open>_prepareHashParams(values)\<close>, lines 167--189: the two loops push onto \<open>result\<close>.\<close>

fun hash_loop :: "runtime \<Rightarrow> input \<Rightarrow> js_object \<Rightarrow> string list \<Rightarrow> (string \<times> jsval) list \<Rightarrow> js_error + (string \<times> jsval) list" where
  "hash_loop rt cfg obj [] result = Inr result"
| "hash_loop rt cfg obj (k # ks) result =
     (case private_hash rt cfg (get obj k) of
        Inl e \<Rightarrow> Inl e
      | Inr d \<Rightarrow> hash_loop rt cfg obj ks (result @ [(k, JString d)]))"

fun other_loop :: "js_object \<Rightarrow> string list \<Rightarrow> (string \<times> jsval) list \<Rightarrow> (string \<times> jsval) list" where
  "other_loop obj [] result = result"
| "other_loop obj (k # ks) result = other_loop obj ks (result @ [(k, get obj k)])"

definition private_prepareHashParams :: "runtime \<Rightarrow> input \<Rightarrow> template_values \<Rightarrow> js_error + (string \<times> jsval) list" where
  "private_prepareHashParams rt cfg vals =
     (case (case hash_fields vals of
              None \<Rightarrow> Inr []
            | Some h \<Rightarrow> hash_loop rt cfg h (keys h) []) of
        Inl e \<Rightarrow> Inl e
      | Inr result \<Rightarrow>
          Inr (case other_fields vals of
                 None \<Rightarrow> result
               | Some ot \<Rightarrow> other_loop ot (keys ot) result))"

text \<open>
  The loop of lines 118--123 (the same at 151--156). \<open>++counter\<close> is evaluated in every
  iteration, as part of the argument of \<open>replace\<close>, and \<open>v.push\<close> follows unconditionally.
\<close>

fun substitute :: "runtime \<Rightarrow> (string \<times> jsval) list \<Rightarrow> nat \<Rightarrow> string \<Rightarrow> jsval list \<Rightarrow> js_error + (string \<times> jsval list)" where
  "substitute rt [] counter query v = Inr (query, v)"
| "substitute rt (p # ps) counter query v =
     (case replace_marker rt NameMarker (fst p) (fst p) query of
        Inl e \<Rightarrow> Inl e
      | Inr q1 \<Rightarrow>
          (case replace_marker rt ValueMarker (fst p) (''$'' @ decimal (Suc counter)) q1 of
             Inl e \<Rightarrow> Inl e
           | Inr q2 \<Rightarrow> substitute rt ps (Suc counter) q2 (v @ [snd p])))"

text \<open>The guard of lines 114--115 (the same at 147--148).\<close>

definition check_secret :: "input \<Rightarrow> js_error + unit" where
  "check_secret cfg =
     (case hash cfg of
        None \<Rightarrow> Inl TypeError
      | Some h \<Rightarrow> (case secret h of None \<Rightarrow> Inl SecretMissing | Some k \<Rightarrow> Inr ()))"

text \<open>
  The body of the \<open>try\<close> block up to the call of the executor: the rewritten query and the
  bind values \<open>v\<close>, or the error thrown on the way.
\<close>

definition resolve :: "runtime \<Rightarrow> input \<Rightarrow> string \<Rightarrow> template_values \<Rightarrow> js_error + (string \<times> jsval list)" where
  "resolve rt cfg query vals =
     (case check_secret cfg of
        Inl e \<Rightarrow> Inl e
      | Inr _ \<Rightarrow>
          (case private_prepareHashParams rt cfg vals of
             Inl e \<Rightarrow> Inl e
           | Inr ps \<Rightarrow> substitute rt ps 0 query []))"

subsection \<open>The query executor\<close>

text \<open>
  What the collaborators answer during one call: whether the pool hands out a client
  (\<open>None\<close>) or fails, and whether the database returns rows or fails. A pool that fails
  calls back with the error either later, as after a refused connection, or at once,
  before \<open>connect\<close> returns, as a pool does that has been ended: \<open>connect_error_inline\<close>
  tells which, and is not read when a client is handed out.
\<close>

record answers =
  connect_answer :: "js_error option"
  connect_error_inline :: bool
  query_answer :: "js_error + string list"

text \<open>A handler argument is a function or something else (usually \<open>undefined\<close>).\<close>

datatype handler = NotFunction | Function

text \<open>The arguments \<open>(err, result)\<close> with which the client calls back.\<close>

definition query_callback_args :: "js_error + string list \<Rightarrow> js_error option \<times> jsval" where
  "query_callback_args a = (case a of Inl e \<Rightarrow> (Some e, JUndefined) | Inr rows \<Rightarrow> (None, JResult rows))"

definition log_query :: "input \<Rightarrow> string \<Rightarrow> jsval list \<Rightarrow> event list" where
  "log_query cfg q vs = (if logs cfg = Some True then [ConsoleLogQuery q vs] else [])"

text \<open>
  \<open>query(query, values, callback, error)\<close>, lines 56--68. The method itself returns
  nothing; what it causes happens in the callbacks. On a failed connect the pool calls
  back with the error and no client; without an error handler the code goes on to
  \<open>client.query\<close> on \<open>undefined\<close>, which raises a \<open>TypeError\<close> inside the pool's callback.
  When the pool called back at once, that exception unwinds through \<open>connect\<close> and leaves
  \<open>query\<close> itself (\<open>query_throws\<close>).
\<close>

definition query :: "input \<Rightarrow> answers \<Rightarrow> string \<Rightarrow> jsval list \<Rightarrow> handler \<Rightarrow> handler \<Rightarrow> event list" where
  "query cfg env q vs callback error =
     log_query cfg q vs @
     (case connect_answer env of
        Some err \<Rightarrow> (if error = Function then [ErrorHandler err] else [RaisedInCallback TypeError])
      | None \<Rightarrow>
          [Lease, DbQuery q vs] @
          (case query_callback_args (query_answer env) of
             (err, result) \<Rightarrow>
               [Release] @
               (case err of
                  Some e \<Rightarrow>
                    (if error = Function then [ErrorHandler e]
                     else if callback = Function then [Callback result]
                     else [])
                | None \<Rightarrow> (if callback = Function then [Callback result] else []))))"

definition query_throws :: "answers \<Rightarrow> handler \<Rightarrow> bool" where
  "query_throws env error =
     (case connect_answer env of
        Some err \<Rightarrow> connect_error_inline env \<and> error \<noteq> Function
      | None \<Rightarrow> False)"

datatype completion = Returns jsval | Throws js_error

text \<open>\<open>async querySync(query, values)\<close>, lines 75--93.\<close>

definition querySync :: "input \<Rightarrow> answers \<Rightarrow> string \<Rightarrow> jsval list \<Rightarrow> event list \<times> completion" where
  "querySync cfg env q vs =
     (case connect_answer env of
        Some err \<Rightarrow>
          (log_query cfg q vs @ [ConsoleError ''Client Receipt error'' err], Returns JFalse)
      | None \<Rightarrow>
          (case query_answer env of
             Inr rows \<Rightarrow>
               (log_query cfg q vs @ [Lease, DbQuery q vs, Release], Returns (JResult rows))
           | Inl err \<Rightarrow>
               (log_query cfg q vs @ [Lease, DbQuery q vs, ConsoleError ''Request execution error'' err],
                Returns JFalse)))"

text \<open>
  \<open>hashQuery(query, values, callback, error)\<close>, lines 112--128. The \<open>catch\<close> covers the
  resolution of the template and the call of \<open>query\<close>. What the executor causes in
  callbacks happens after the \<open>try\<close> block has been left, except when the pool fails at
  once: then the \<open>TypeError\<close> that leaves \<open>query\<close> is caught here, and it is dropped, the
  error handler not being a function.
\<close>

definition hashQuery :: "runtime \<Rightarrow> input \<Rightarrow> answers \<Rightarrow> string \<Rightarrow> template_values \<Rightarrow> handler \<Rightarrow> handler \<Rightarrow> event list" where
  "hashQuery rt cfg env q vals callback error =
     (case resolve rt cfg q vals of
        Inl err \<Rightarrow> (if error = Function then [ErrorHandler err] else [])
      | Inr (q', v) \<Rightarrow>
          (if query_throws env error
           then log_query cfg q' v @ (if error = Function then [ErrorHandler TypeError] else [])
           else query cfg env q' v callback error))"

text \<open>
  \<open>async hashQuerySync(query, values)\<close>, lines 145--161; the resolved parameters are
  printed at line 150, and the \<open>catch\<close> prints the error and returns nothing.
\<close>

definition hashQuerySync :: "runtime \<Rightarrow> input \<Rightarrow> answers \<Rightarrow> string \<Rightarrow> template_values \<Rightarrow> event list \<times> completion" where
  "hashQuerySync rt cfg env q vals =
     (case check_secret cfg of
        Inl err \<Rightarrow> ([ConsoleLogError err], Returns JUndefined)
      | Inr _ \<Rightarrow>
          (case private_prepareHashParams rt cfg vals of
             Inl err \<Rightarrow> ([ConsoleLogError err], Returns JUndefined)
           | Inr ps \<Rightarrow>
               (case substitute rt ps 0 q [] of
                  Inl err \<Rightarrow> ([ConsoleLogParams ps, ConsoleLogError err], Returns JUndefined)
                | Inr (q', v) \<Rightarrow>
                    (case querySync cfg env q' v of
                       (tr, r) \<Rightarrow> (ConsoleLogParams ps # tr, r)))))"

subsection \<open>Sequences of calls and what is observed of them\<close>

text \<open>
  A call of the executor, by either method, paired with what the collaborators answer
  during it; \<open>run\<close> is what a sequence of such calls on one facade causes.
\<close>

datatype call = Query string "jsval list" handler handler | QuerySync string "jsval list"

fun run_call :: "input \<Rightarrow> call \<times> answers \<Rightarrow> event list" where
  "run_call cfg (Query q vs callback error, env) = query cfg env q vs callback error"
| "run_call cfg (QuerySync q vs, env) = fst (querySync cfg env q vs)"

definition run :: "input \<Rightarrow> (call \<times> answers) list \<Rightarrow> event list" where
  "run cfg cs = concat (map (run_call cfg) cs)"

text \<open>The calls that got a client and whose statement the database then rejected.\<close>

fun rejected :: "call \<times> answers \<Rightarrow> bool" where
  "rejected (c, env) =
     (case connect_answer env of
        Some e \<Rightarrow> False
      | None \<Rightarrow> (case query_answer env of Inl e \<Rightarrow> True | Inr rows \<Rightarrow> False))"

fun blocking :: "call \<times> answers \<Rightarrow> bool" where
  "blocking (QuerySync q vs, env) = True"
| "blocking (Query q vs callback error, env) = False"

definition leases :: "event list \<Rightarrow> nat" where
  "leases tr = count_list tr Lease"

definition releases :: "event list \<Rightarrow> nat" where
  "releases tr = count_list tr Release"

text \<open>
  What reaches the caller: a call of one of its handlers, or an exception raised in a
  callback.
\<close>

fun notification :: "event \<Rightarrow> bool" where
  "notification (Callback r) = True"
| "notification (ErrorHandler e) = True"
| "notification (RaisedInCallback e) = True"
| "notification _ = False"

definition notifications :: "event list \<Rightarrow> event list" where
  "notifications tr = filter notification tr"

text \<open>The errors written to the console.\<close>

fun logged_errors :: "event list \<Rightarrow> js_error list" where
  "logged_errors [] = []"
| "logged_errors (ConsoleLogError e # tr) = e # logged_errors tr"
| "logged_errors (ConsoleError m e # tr) = e # logged_errors tr"
| "logged_errors (_ # tr) = logged_errors tr"

text \<open>The statements sent to the database.\<close>

fun db_queries :: "event list \<Rightarrow> (string \<times> jsval list) list" where
  "db_queries [] = []"
| "db_queries (DbQuery q vs # tr) = (q, vs) # db_queries tr"
| "db_queries (_ # tr) = db_queries tr"

text \<open>The fields of a group of the template parameters; an absent group has none.\<close>

definition fields_of :: "js_object option \<Rightarrow> js_object" where
  "fields_of g = (case g of None \<Rightarrow> [] | Some obj \<Rightarrow> obj)"

fun is_string :: "jsval \<Rightarrow> bool" where
  "is_string (JString s) = True"
| "is_string _ = False"

text \<open>The error, if any, that the pool or the database answers with during a call.\<close>

definition failure :: "answers \<Rightarrow> js_error option" where
  "failure env =
     (case connect_answer env of
        Some e \<Rightarrow> Some e
      | None \<Rightarrow> (case query_answer env of Inl e \<Rightarrow> Some e | Inr rows \<Rightarrow> None))"

subsection \<open>A small runtime for concrete runs\<close>

text \<open>
  Where a statement needs a concrete runtime, this one is used. Its engine rejects a
  pattern with an unclosed parenthesis as the \<open>RegExp\<close> constructor does, and takes every
  other character but the dot for itself; it agrees with the language on the patterns used
  below and is not meant for others. It offers no digest besides \<open>sha256\<close>.
\<close>

definition sample_regexp :: "string \<Rightarrow> string \<Rightarrow> string \<Rightarrow> js_error + string" where
  "sample_regexp p r s =
     (if count_list p CHR ''('' > count_list p CHR '')''
      then Inl (SyntaxError ''Unterminated group'')
      else Inr (wild_replace p r s))"

definition sample_runtime :: runtime where
  "sample_runtime = \<lparr>regexp_replace = sample_regexp, other_digests = (\<lambda>alg. None)\<rparr>"

subsection \<open>Templates as token sequences\<close>

text \<open>
  A query template as its author thinks of it: plain text interleaved with name markers and
  value markers. \<open>render\<close> gives the query string. In a well-formed template the text
  between markers has no opening brace and the marked names have no brace.
\<close>

datatype token = Text string | Mark marker string

fun render_token :: "token \<Rightarrow> string" where
  "render_token (Text t) = t"
| "render_token (Mark m n) = marker_text m n"

definition render :: "token list \<Rightarrow> string" where
  "render ts = concat (map render_token ts)"

fun well_formed :: "token \<Rightarrow> bool" where
  "well_formed (Text t) = (CHR ''{'' \<notin> set t)"
| "well_formed (Mark m n) = (CHR ''{'' \<notin> set n \<and> CHR ''}'' \<notin> set n)"

text \<open>The position of the first field of a given name in the resolved sequence.\<close>

fun position :: "string \<Rightarrow> string list \<Rightarrow> nat option" where
  "position n [] = None"
| "position n (x # xs) = (if n = x then Some 0 else map_option Suc (position n xs))"

text \<open>
  What a template should become, token by token, for the resolved field names \<open>names\<close>
  when the counter stands at \<open>c\<close>: the name marker of a field becomes the name, its value
  marker the placeholder numbered by the field's position, and nothing else changes.
\<close>

fun instantiate :: "nat \<Rightarrow> string list \<Rightarrow> token \<Rightarrow> token" where
  "instantiate c names (Text t) = Text t"
| "instantiate c names (Mark NameMarker n) =
     (if n \<in> set names then Text n else Mark NameMarker n)"
| "instantiate c names (Mark ValueMarker n) =
     (case position n names of
        Some i \<Rightarrow> Text (''$'' @ decimal (Suc (c + i)))
      | None \<Rightarrow> Mark ValueMarker n)"

text \<open>One iteration of the loop, seen on a token.\<close>

definition step :: "string \<Rightarrow> nat \<Rightarrow> token \<Rightarrow> token" where
  "step n c tok =
     (let t1 = (if tok = Mark NameMarker n then Text n else tok)
      in if t1 = Mark ValueMarker n then Text (''$'' @ decimal (Suc c)) else t1)"

text \<open>
  The positional placeholders of a statement: every \<open>$\<close> that is followed by digits,
  with those digits.
\<close>

definition is_digit :: "char \<Rightarrow> bool" where
  "is_digit c = (c \<in> set ''0123456789'')"

fun placeholders :: "string \<Rightarrow> string list" where
  "placeholders [] = []"
| "placeholders (c # cs) =
     (if c = CHR ''$'' \<and> takeWhile is_digit cs \<noteq> []
      then takeWhile is_digit cs # placeholders cs
      else placeholders cs)"

section \<open>Properties\<close>

subsection \<open>The static registry and bulk disconnect\<close>

lemma length_constructions:
  "length (constructions inps connections) = length connections + length inps"
  by (induction inps arbitrary: connections) (simp_all add: constructor_def)

lemma fid_constructions:
  "map fid connections = [0..<length connections] \<Longrightarrow>
   map fid (constructions inps connections) = [0..<length connections + length inps]"
proof (induction inps arbitrary: connections)
  case Nil
  then show ?case by simp
next
  case (Cons inp inps)
  have "map fid (constructor inp connections) = [0..<length (constructor inp connections)]"
    using Cons.prems by (simp add: constructor_def)
  from Cons.IH [OF this] show ?case
    by (simp add: constructor_def)
qed

lemma disconnect_cases:
  "disconnect connections =
     (case connections of
        [] \<Rightarrow> Inl (TypeError, [])
      | f # _ \<Rightarrow> Inr [PoolEnd (fid f), ConsoleLogText ''| All connections are disabled |''])"
  by (cases connections) (simp_all add: disconnect_def DewartPG_length_def close_def)

text \<open>
  Claim C9. After any sequence of N constructions (starting from the empty registry), the
  static \<open>disconnect\<close> ends the pool of the first registered facade only: the facades it
  closes are the first \<open>min N 1\<close> ones, whatever N is, and it throws exactly when N = 0.
\<close>

theorem disconnect_closes_first_only:
  "closed_by (disconnect (constructions inps [])) = [0..<min (length inps) 1]
   \<and> throws (disconnect (constructions inps [])) = (length inps = 0)"
proof -
  let ?reg = "constructions inps []"
  have len: "length ?reg = length inps"
    by (simp add: length_constructions)
  have ids: "map fid ?reg = [0..<length inps]"
    using fid_constructions [of "[]" inps] by simp
  show ?thesis
  proof (cases ?reg)
    case Nil
    with len show ?thesis
      by (simp add: disconnect_cases closed_by_def throws_def)
  next
    case (Cons f fs)
    with len have pos: "0 < length inps" by auto
    from pos have "[0..<length inps] = 0 # [1..<length inps]"
      by (simp add: upt_conv_Cons)
    with ids Cons have "fid f = 0"
      by simp
    with Cons pos show ?thesis
      by (simp add: disconnect_cases closed_by_def throws_def min_def upt_conv_Cons)
  qed
qed

subsection \<open>The query executor: leases and releases\<close>

text \<open>
  The callback form releases the client first thing when the database has answered, on
  the success path and on the failure path alike.
\<close>

lemma query_leases_releases:
  "leases (query cfg env q vs callback error) = releases (query cfg env q vs callback error)"
  by (simp add: query_def leases_def releases_def log_query_def query_callback_args_def
      split: option.splits sum.splits prod.splits)

lemma query_releases_before_notifying:
  "releases (takeWhile (\<lambda>e. \<not> notification e) (query cfg env q vs callback error))
   = leases (query cfg env q vs callback error)"
  by (simp add: query_def leases_def releases_def log_query_def query_callback_args_def
      split: option.splits sum.splits prod.splits)

text \<open>
  The blocking form releases on the success path only: \<open>client.release()\<close> stands behind
  the awaited \<open>client.query\<close> inside the inner \<open>try\<close>, and the \<open>catch\<close> only writes to the
  console.
\<close>

lemma querySync_releases:
  "releases (fst (querySync cfg env q vs)) = (if failure env = None then 1 else 0)
   \<and> leases (fst (querySync cfg env q vs)) = (if connect_answer env = None then 1 else 0)"
  by (simp add: querySync_def failure_def leases_def releases_def log_query_def
      split: option.splits sum.splits)

lemma leases_append [simp]: "leases (xs @ ys) = leases xs + leases ys"
  by (simp add: leases_def)

lemma releases_append [simp]: "releases (xs @ ys) = releases xs + releases ys"
  by (simp add: releases_def)

text \<open>
  Over any sequence of calls, the clients still leased at the end are those of the
  blocking calls whose statement the database rejected.
\<close>

lemma run_leaks:
  "leases (run cfg cs) = releases (run cfg cs) + length (filter (\<lambda>c. blocking c \<and> rejected c) cs)"
proof (induction cs)
  case Nil
  then show ?case by (simp add: run_def leases_def releases_def)
next
  case (Cons c cs)
  obtain k env where c: "c = (k, env)" by (cases c)
  have "leases (run_call cfg c) =
        releases (run_call cfg c) + (if blocking c \<and> rejected c then 1 else 0)"
  proof (cases k)
    case (Query q vs callback error)
    with c show ?thesis
      by (simp add: query_leases_releases)
  next
    case (QuerySync q vs)
    with c show ?thesis
      by (simp add: querySync_releases failure_def split: option.splits sum.splits)
  qed
  with Cons show ?case
    by (simp add: run_def)
qed

text \<open>
  Claim C1 (the code departs from it). The claim asks that a leased connection be released
  once on every exit path of \<open>query\<close> and \<open>querySync\<close>, so that leases and releases are
  equal in number after any sequence of calls. After two calls of \<open>querySync\<close>, the first
  answered with rows and the second rejected by the database, two connections have been
  leased and one released.
\<close>

theorem querySync_query_failure_leaks:
  "leases (run \<lparr>hash = None, logs = None\<rparr>
      [(QuerySync ''SELECT 1'' [], \<lparr>connect_answer = None, connect_error_inline = False, query_answer = Inr [''1'']\<rparr>),
       (QuerySync ''SELECT * FROM missing'' [],
        \<lparr>connect_answer = None, connect_error_inline = False, query_answer = Inl (QueryError ''relation missing does not exist'')\<rparr>)])
     = 2
   \<and> releases (run \<lparr>hash = None, logs = None\<rparr>
      [(QuerySync ''SELECT 1'' [], \<lparr>connect_answer = None, connect_error_inline = False, query_answer = Inr [''1'']\<rparr>),
       (QuerySync ''SELECT * FROM missing'' [],
        \<lparr>connect_answer = None, connect_error_inline = False, query_answer = Inl (QueryError ''relation missing does not exist'')\<rparr>)])
     = 1"
  by (simp add: run_def querySync_def leases_def releases_def log_query_def)

subsection \<open>The query executor: errors\<close>

text \<open>
  Claim C6. \<open>querySync\<close> never throws: when the pool or the database fails it writes the
  error to the console and returns \<open>false\<close>, and otherwise it returns the result.
\<close>

theorem querySync_returns_false_on_error:
  "snd (querySync cfg env q vs) =
     (case failure env of
        Some e \<Rightarrow> Returns JFalse
      | None \<Rightarrow>
          (case query_answer env of
             Inr rows \<Rightarrow> Returns (JResult rows)
           | Inl e \<Rightarrow> Returns JFalse))
   \<and> logged_errors (fst (querySync cfg env q vs)) =
       (case failure env of Some e \<Rightarrow> [e] | None \<Rightarrow> [])
   \<and> notifications (fst (querySync cfg env q vs)) = []"
  by (simp add: querySync_def failure_def log_query_def notifications_def
      split: option.splits sum.splits)

lemma db_queries_append [simp]: "db_queries (xs @ ys) = db_queries xs @ db_queries ys"
  by (induction xs rule: db_queries.induct) simp_all

lemma logged_errors_append [simp]: "logged_errors (xs @ ys) = logged_errors xs @ logged_errors ys"
  by (induction xs rule: logged_errors.induct) simp_all

lemma query_throws_Function [simp]: "\<not> query_throws env Function"
  by (simp add: query_throws_def split: option.splits)

lemma query_throws_connected [simp]: "connect_answer env = None \<Longrightarrow> \<not> query_throws env error"
  by (simp add: query_throws_def)

lemma log_query_logs_no_error [simp]: "logged_errors (log_query cfg q vs) = []"
  by (simp add: log_query_def)

lemma query_logs_no_error: "logged_errors (query cfg env q vs callback error) = []"
  by (simp add: query_def log_query_def query_callback_args_def split: option.splits sum.splits)

lemma query_routes_error:
  "failure env = Some e \<Longrightarrow>
   notifications (query cfg env q vs callback Function) = [ErrorHandler e]"
  by (auto simp: failure_def query_def log_query_def query_callback_args_def notifications_def
      split: option.splits sum.splits)

text \<open>
  A pool that has been ended fails at once. Without an error handler the exception raised
  in its callback leaves \<open>query\<close>; \<open>hashQuery\<close> catches it and drops it.
\<close>

lemma failure_at_once_without_handler:
  "connect_answer env = Some e \<Longrightarrow> connect_error_inline env \<Longrightarrow>
   query_throws env NotFunction
   \<and> query cfg env q vs callback NotFunction = log_query cfg q vs @ [RaisedInCallback TypeError]
   \<and> (resolve rt cfg qt vals = Inr (q, vs) \<longrightarrow>
        hashQuery rt cfg env qt vals callback NotFunction = log_query cfg q vs)"
  by (simp add: query_throws_def query_def hashQuery_def)

text \<open>Two runs of the template resolver that are used as examples below.\<close>

lemma resolve_no_secret:
  "hash cfg = Some h \<Longrightarrow> secret h = None \<Longrightarrow> resolve rt cfg q vals = Inl SecretMissing"
  by (simp add: resolve_def check_secret_def)

lemma resolve_id_example:
  "resolve rt \<lparr>hash = Some \<lparr>secret = Some ''k'', algorithm = None\<rparr>, logs = None\<rparr>
     ''SELECT * FROM t WHERE {%id%}={&id&}''
     \<lparr>hash_fields = None, other_fields = Some [(''id'', JString ''7'')]\<rparr>
   = Inr (''SELECT * FROM t WHERE id=$1'', [JString ''7''])"
  by (simp add: resolve_def check_secret_def private_prepareHashParams_def keys_def get_def
      replace_marker_def plain_def syntax_character_def decimal.simps digit_def)

text \<open>
  Claim C5, as stated, fails. With a success callback and no error handler, a statement
  that the database rejects is not written to the console, and the caller is not left
  alone: the success callback is called, with \<open>undefined\<close> for the result.
\<close>

theorem no_error_handler_counterexample:
  "\<not> (logged_errors (query \<lparr>hash = None, logs = None\<rparr>
          \<lparr>connect_answer = None, connect_error_inline = False, query_answer = Inl (QueryError ''syntax error'')\<rparr>
          ''SELEC 1'' [] Function NotFunction) = [QueryError ''syntax error'']
      \<and> notifications (query \<lparr>hash = None, logs = None\<rparr>
          \<lparr>connect_answer = None, connect_error_inline = False, query_answer = Inl (QueryError ''syntax error'')\<rparr>
          ''SELEC 1'' [] Function NotFunction) = [])"
  by (simp add: query_def log_query_def query_callback_args_def notifications_def)

text \<open>
  Claim C5, amended. When an error handler is supplied, a connection or query error is
  routed to it and nothing else reaches the caller, for \<open>query\<close> and for \<open>hashQuery\<close>; an
  error raised while \<open>hashQuery\<close> resolves its template goes to the handler as well, and
  without a handler it is dropped with no effect at all. Neither method ever writes an
  error to the console.
\<close>

theorem callback_error_routing:
  "(failure env = Some e \<longrightarrow>
      notifications (query cfg env q vs callback Function) = [ErrorHandler e])
   \<and> (failure env = Some e \<and> resolve rt cfgh qh valsh = Inr (q', v) \<longrightarrow>
      notifications (hashQuery rt cfgh env qh valsh callback Function) = [ErrorHandler e])
   \<and> (resolve rt cfgf qf valsf = Inl ef \<longrightarrow>
      hashQuery rt cfgf env qf valsf callback Function = [ErrorHandler ef]
      \<and> hashQuery rt cfgf env qf valsf callback NotFunction = [])
   \<and> logged_errors (query cfg env q vs callback error) = []
   \<and> logged_errors (hashQuery rt cfgh env qh valsh callback error) = []"
  by (auto simp: hashQuery_def query_routes_error query_logs_no_error split: sum.splits)

theorem callback_error_routing_witness:
  "failure \<lparr>connect_answer = None, connect_error_inline = False, query_answer = Inl (QueryError ''syntax error'')\<rparr>
     = Some (QueryError ''syntax error'')
   \<and> notifications (query \<lparr>hash = None, logs = None\<rparr>
        \<lparr>connect_answer = None, connect_error_inline = False, query_answer = Inl (QueryError ''syntax error'')\<rparr>
        ''SELEC 1'' [] Function Function) = [ErrorHandler (QueryError ''syntax error'')]
   \<and> resolve sample_runtime \<lparr>hash = Some \<lparr>secret = Some ''k'', algorithm = None\<rparr>, logs = None\<rparr>
        ''SELECT * FROM t WHERE {%id%}={&id&}''
        \<lparr>hash_fields = None, other_fields = Some [(''id'', JString ''7'')]\<rparr>
      = Inr (''SELECT * FROM t WHERE id=$1'', [JString ''7''])
   \<and> notifications (hashQuery sample_runtime
        \<lparr>hash = Some \<lparr>secret = Some ''k'', algorithm = None\<rparr>, logs = None\<rparr>
        \<lparr>connect_answer = None, connect_error_inline = False, query_answer = Inl (QueryError ''syntax error'')\<rparr>
        ''SELECT * FROM t WHERE {%id%}={&id&}''
        \<lparr>hash_fields = None, other_fields = Some [(''id'', JString ''7'')]\<rparr> Function Function)
      = [ErrorHandler (QueryError ''syntax error'')]
   \<and> resolve sample_runtime \<lparr>hash = Some \<lparr>secret = None, algorithm = None\<rparr>, logs = None\<rparr>
        ''SELECT * FROM t WHERE {%id%}={&id&}''
        \<lparr>hash_fields = None, other_fields = Some [(''id'', JString ''7'')]\<rparr>
      = Inl SecretMissing
   \<and> hashQuery sample_runtime \<lparr>hash = Some \<lparr>secret = None, algorithm = None\<rparr>, logs = None\<rparr>
        \<lparr>connect_answer = None, connect_error_inline = False, query_answer = Inl (QueryError ''syntax error'')\<rparr>
        ''SELECT * FROM t WHERE {%id%}={&id&}''
        \<lparr>hash_fields = None, other_fields = Some [(''id'', JString ''7'')]\<rparr> Function Function
      = [ErrorHandler SecretMissing]
   \<and> hashQuery sample_runtime \<lparr>hash = Some \<lparr>secret = None, algorithm = None\<rparr>, logs = None\<rparr>
        \<lparr>connect_answer = None, connect_error_inline = False, query_answer = Inl (QueryError ''syntax error'')\<rparr>
        ''SELECT * FROM t WHERE {%id%}={&id&}''
        \<lparr>hash_fields = None, other_fields = Some [(''id'', JString ''7'')]\<rparr> Function NotFunction
      = []"
proof -
  let ?env = "\<lparr>connect_answer = None, connect_error_inline = False, query_answer = Inl (QueryError ''syntax error'')\<rparr>"
  let ?vals = "\<lparr>hash_fields = None, other_fields = Some [(''id'', JString ''7'')]\<rparr>"
  let ?cfg1 = "\<lparr>hash = Some \<lparr>secret = Some ''k'', algorithm = None\<rparr>, logs = None\<rparr>"
  let ?cfg2 = "\<lparr>hash = Some \<lparr>secret = None, algorithm = None\<rparr>, logs = None\<rparr>"
  have f: "failure ?env = Some (QueryError ''syntax error'')"
    by (simp add: failure_def)
  have r1: "resolve sample_runtime ?cfg1 ''SELECT * FROM t WHERE {%id%}={&id&}'' ?vals
            = Inr (''SELECT * FROM t WHERE id=$1'', [JString ''7''])"
    by (rule resolve_id_example)
  have r2: "resolve sample_runtime ?cfg2 ''SELECT * FROM t WHERE {%id%}={&id&}'' ?vals
            = Inl SecretMissing"
    by (simp add: resolve_no_secret)
  from f r1 r2 callback_error_routing
    [where env = ?env and e = "QueryError ''syntax error''"
       and cfg = "\<lparr>hash = None, logs = None\<rparr>" and q = "''SELEC 1''" and vs = "[]"
       and callback = Function and rt = sample_runtime
       and cfgh = ?cfg1 and qh = "''SELECT * FROM t WHERE {%id%}={&id&}''" and valsh = ?vals
       and q' = "''SELECT * FROM t WHERE id=$1''" and v = "[JString ''7'']"
       and cfgf = ?cfg2 and qf = "''SELECT * FROM t WHERE {%id%}={&id&}''" and valsf = ?vals
       and ef = SecretMissing]
  show ?thesis
    by blast
qed

subsection \<open>Resolved parameters\<close>

lemma map_get_distinct:
  assumes "distinct (map fst obj)"
  shows "map (\<lambda>k. f k (get obj k)) (keys obj) = map (\<lambda>(n, v). f n v) obj"
proof -
  have "\<And>n v. (n, v) \<in> set obj \<Longrightarrow> get obj n = v"
    using assms by (simp add: get_def)
  then have "map (\<lambda>p. f (fst p) (get obj (fst p))) obj = map (\<lambda>(n, v). f n v) obj"
    by (intro map_cong) auto
  then show ?thesis
    by (simp add: keys_def comp_def)
qed

lemma other_loop_eq:
  "other_loop obj ks result = result @ map (\<lambda>k. (k, get obj k)) ks"
  by (induction ks arbitrary: result) simp_all

lemma private_hash_configured:
  "hash cfg = Some h \<Longrightarrow> secret h = Some k \<Longrightarrow> algorithm h = Some a \<Longrightarrow>
   createHmac rt a = Some hf \<Longrightarrow> private_hash rt cfg (JString s) = Inr (hf k s)"
  by (simp add: private_hash_def hmac_update_digest_def)

lemma hash_loop_eq:
  assumes cfg: "hash cfg = Some h" "secret h = Some k" "algorithm h = Some a"
      "createHmac rt a = Some hf"
    and strs: "list_all (\<lambda>k'. is_string (get obj k')) ks"
  shows "hash_loop rt cfg obj ks result =
         Inr (result @
              map (\<lambda>k'. (k', JString (case get obj k' of JString s \<Rightarrow> hf k s | _ \<Rightarrow> []))) ks)"
  using strs
proof (induction ks arbitrary: result)
  case Nil
  then show ?case by simp
next
  case (Cons k' ks)
  then obtain s where s: "get obj k' = JString s"
    by (cases "get obj k'") simp_all
  with Cons private_hash_configured [OF cfg, of s] show ?case
    by simp
qed

lemma prepare_configured:
  assumes cfg: "hash cfg = Some h" "secret h = Some k" "algorithm h = Some a"
      "createHmac rt a = Some hf"
    and H: "fields_of (hash_fields vals) = map (\<lambda>(n, s). (n, JString s)) Hs"
    and dH: "distinct (map fst Hs)"
    and dO: "distinct (keys (fields_of (other_fields vals)))"
  shows "private_prepareHashParams rt cfg vals =
         Inr (map (\<lambda>(n, s). (n, JString (hf k s))) Hs @ fields_of (other_fields vals))"
proof -
  let ?H = "fields_of (hash_fields vals)" and ?O = "fields_of (other_fields vals)"
  have dH': "distinct (map fst ?H)"
    using dH by (simp add: H comp_def case_prod_unfold)
  have strs: "list_all (\<lambda>k'. is_string (get ?H k')) (keys ?H)"
  proof -
    have "map (\<lambda>k'. is_string (get ?H k')) (keys ?H) = map (\<lambda>(n, v). is_string v) ?H"
      using map_get_distinct [OF dH', of "\<lambda>n v. is_string v"] by simp
    also have "\<dots> = map (\<lambda>p. True) Hs"
      by (simp add: H comp_def case_prod_unfold)
    finally have "\<forall>b \<in> set (map (\<lambda>k'. is_string (get ?H k')) (keys ?H)). b"
      by simp
    then show ?thesis
      by (simp add: list_all_iff)
  qed
  have hashed: "hash_loop rt cfg ?H (keys ?H) [] = Inr (map (\<lambda>(n, s). (n, JString (hf k s))) Hs)"
  proof -
    have "map (\<lambda>k'. (k', JString (case get ?H k' of JString s \<Rightarrow> hf k s | _ \<Rightarrow> []))) (keys ?H)
          = map (\<lambda>(n, v). (n, JString (case v of JString s \<Rightarrow> hf k s | _ \<Rightarrow> []))) ?H"
      using map_get_distinct
        [OF dH', of "\<lambda>n v. (n, JString (case v of JString s \<Rightarrow> hf k s | _ \<Rightarrow> []))"]
      by simp
    also have "\<dots> = map (\<lambda>(n, s). (n, JString (hf k s))) Hs"
      by (simp add: H comp_def case_prod_unfold)
    finally show ?thesis
      using hash_loop_eq [OF cfg strs, of "[]"] by simp
  qed
  have others: "map (\<lambda>k'. (k', get ?O k')) (keys ?O) = ?O"
    using map_get_distinct [of ?O "\<lambda>n v. (n, v)"] dO by (simp add: keys_def)
  show ?thesis
  proof (cases "hash_fields vals")
    case None
    then have "Hs = []" using H by (simp add: fields_of_def)
    with None others show ?thesis
      by (cases "other_fields vals")
        (simp_all add: private_prepareHashParams_def fields_of_def other_loop_eq keys_def)
  next
    case (Some hobj)
    with hashed have
      "hash_loop rt cfg hobj (keys hobj) [] = Inr (map (\<lambda>(n, s). (n, JString (hf k s))) Hs)"
      by (simp add: fields_of_def)
    with Some others show ?thesis
      by (cases "other_fields vals")
        (simp_all add: private_prepareHashParams_def fields_of_def other_loop_eq keys_def)
  qed
qed

lemma prepare_no_hash_fields:
  assumes H: "fields_of (hash_fields vals) = []"
    and dO: "distinct (keys (fields_of (other_fields vals)))"
  shows "private_prepareHashParams rt cfg vals = Inr (fields_of (other_fields vals))"
proof -
  let ?O = "fields_of (other_fields vals)"
  have others: "map (\<lambda>k'. (k', get ?O k')) (keys ?O) = ?O"
    using map_get_distinct [of ?O "\<lambda>n v. (n, v)"] dO by (simp add: keys_def)
  from H have "hash_fields vals = None \<or> hash_fields vals = Some []"
    by (simp add: fields_of_def split: option.splits)
  with others show ?thesis
    by (cases "other_fields vals")
      (auto simp: private_prepareHashParams_def fields_of_def other_loop_eq keys_def)
qed

text \<open>
  Claim C7. Let the hash group hold the fields \<open>Hs\<close> (names with string values) and let
  the property names of each group be distinct, as they are in an object. With a secret
  \<open>k\<close> and an algorithm configured whose keyed digest is \<open>hf\<close>, \<open>_prepareHashParams\<close>
  returns the fields of the hash group in enumeration order, each with the digest of its
  value under \<open>k\<close>, followed by the fields of the other group in enumeration order, each
  with its own value. When the hash group is empty or absent it returns the fields of the
  other group, whatever the configuration.
\<close>

theorem prepareHashParams_resolved:
  "(hash cfg = Some h \<and> secret h = Some k \<and> algorithm h = Some a \<and> createHmac rt a = Some hf
      \<and> fields_of (hash_fields vals) = map (\<lambda>(n, s). (n, JString s)) Hs
      \<and> distinct (map fst Hs) \<and> distinct (keys (fields_of (other_fields vals)))
    \<longrightarrow> private_prepareHashParams rt cfg vals =
          Inr (map (\<lambda>(n, s). (n, JString (hf k s))) Hs @ fields_of (other_fields vals)))
   \<and> (fields_of (hash_fields vals') = [] \<and> distinct (keys (fields_of (other_fields vals')))
    \<longrightarrow> private_prepareHashParams rt cfg' vals' = Inr (fields_of (other_fields vals')))"
  using prepare_configured [of cfg h k a rt hf vals Hs] prepare_no_hash_fields [of vals' rt cfg']
  by blast

theorem prepareHashParams_resolved_witness:
  "createHmac sample_runtime ''sha256'' = Some hex_hmac_sha256
   \<and> private_prepareHashParams sample_runtime
        \<lparr>hash = Some \<lparr>secret = Some ''k'', algorithm = Some ''sha256''\<rparr>, logs = None\<rparr>
        \<lparr>hash_fields = Some [(''a'', JString ''x'')], other_fields = Some [(''b'', JString ''y'')]\<rparr>
      = Inr [(''a'', JString (hex_hmac_sha256 ''k'' ''x'')), (''b'', JString ''y'')]
   \<and> private_prepareHashParams sample_runtime \<lparr>hash = None, logs = None\<rparr>
        \<lparr>hash_fields = None, other_fields = Some [(''b'', JString ''y'')]\<rparr>
      = Inr [(''b'', JString ''y'')]"
  using prepareHashParams_resolved
    [where rt = sample_runtime
       and cfg = "\<lparr>hash = Some \<lparr>secret = Some ''k'', algorithm = Some ''sha256''\<rparr>, logs = None\<rparr>"
       and h = "\<lparr>secret = Some ''k'', algorithm = Some ''sha256''\<rparr>"
       and k = "''k''" and a = "''sha256''" and hf = hex_hmac_sha256
       and vals = "\<lparr>hash_fields = Some [(''a'', JString ''x'')], other_fields = Some [(''b'', JString ''y'')]\<rparr>"
       and Hs = "[(''a'', ''x'')]"
       and cfg' = "\<lparr>hash = None, logs = None\<rparr>"
       and vals' = "\<lparr>hash_fields = None, other_fields = Some [(''b'', JString ''y'')]\<rparr>"]
  by (simp add: createHmac_def fields_of_def keys_def)

subsection \<open>The configuration guard of the templated queries\<close>

lemma substitute_plain:
  "list_all plain (map fst ps) \<Longrightarrow> \<exists>q'. substitute rt ps c q v = Inr (q', v @ map snd ps)"
proof (induction ps arbitrary: c q v)
  case Nil
  then show ?case by simp
next
  case (Cons p ps)
  let ?q1 = "replace_all (marker_text NameMarker (fst p)) (fst p) q"
  let ?q2 = "replace_all (marker_text ValueMarker (fst p)) (''$'' @ decimal (Suc c)) ?q1"
  from Cons.prems have "plain (fst p)" and "list_all plain (map fst ps)"
    by simp_all
  from Cons.IH [OF this(2), of "Suc c" ?q2 "v @ [snd p]"] \<open>plain (fst p)\<close>
  show ?case
    by (simp add: replace_marker_def)
qed

lemma substitute_binds:
  "substitute rt ps c q v = Inr (q', v') \<Longrightarrow> v' = v @ map snd ps"
proof (induction ps arbitrary: c q v)
  case Nil
  then show ?case by simp
next
  case (Cons p ps)
  from Cons.prems obtain q1 q2 where
    "substitute rt ps (Suc c) q2 (v @ [snd p]) = Inr (q', v')"
    by (auto split: sum.splits)
  from Cons.IH [OF this] show ?case
    by simp
qed

lemma resolve_no_algorithm:
  assumes "hash cfg = Some h" "secret h = Some k" "algorithm h = None"
    and "fields_of (hash_fields vals) \<noteq> []"
  shows "resolve rt cfg q vals = Inl HashConfigMissing"
proof -
  from assms(4) obtain f fs where "hash_fields vals = Some (f # fs)"
    by (cases "hash_fields vals") (auto simp: fields_of_def neq_Nil_conv)
  with assms(1-3) show ?thesis
    by (simp add: resolve_def check_secret_def private_prepareHashParams_def keys_def
        private_hash_def)
qed

lemma failed_resolve_no_query:
  "resolve rt cfg q vals = Inl e \<Longrightarrow>
   db_queries (hashQuery rt cfg env q vals callback error) = []
   \<and> db_queries (fst (hashQuerySync rt cfg env q vals)) = []
   \<and> snd (hashQuerySync rt cfg env q vals) = Returns JUndefined"
  by (auto simp: resolve_def hashQuery_def hashQuerySync_def split: sum.splits)

lemma resolve_other_only:
  assumes "hash cfg = Some h" "secret h = Some k"
    and "fields_of (hash_fields vals) = []"
    and "distinct (keys (fields_of (other_fields vals)))"
    and "list_all plain (keys (fields_of (other_fields vals)))"
  shows "\<exists>q'. resolve rt cfg q vals = Inr (q', map snd (fields_of (other_fields vals)))"
proof -
  have "private_prepareHashParams rt cfg vals = Inr (fields_of (other_fields vals))"
    using assms by (simp add: prepare_no_hash_fields)
  moreover obtain q' where
    "substitute rt (fields_of (other_fields vals)) 0 q [] =
       Inr (q', [] @ map snd (fields_of (other_fields vals)))"
    using substitute_plain [of "fields_of (other_fields vals)" rt 0 q "[]"] assms(5)
    by (auto simp: keys_def)
  ultimately show ?thesis
    using assms(1,2) by (simp add: resolve_def check_secret_def)
qed

lemma hashQuery_sends:
  "resolve rt cfg q vals = Inr (q', v) \<Longrightarrow> connect_answer env = None \<Longrightarrow>
   db_queries (hashQuery rt cfg env q vals callback error) = [(q', v)]
   \<and> db_queries (fst (hashQuerySync rt cfg env q vals)) = [(q', v)]"
  by (auto simp: resolve_def hashQuery_def hashQuerySync_def query_def querySync_def log_query_def
      query_callback_args_def split: sum.splits option.splits)

text \<open>
  Claim C3, as stated, fails: a call that requests no hash field does need a secret. With
  an empty hash configuration and only an "other" field, nothing is sent to the database
  and the error handler receives the error of the guard.
\<close>

theorem other_fields_only_counterexample:
  "fields_of (hash_fields \<lparr>hash_fields = None, other_fields = Some [(''id'', JString ''7'')]\<rparr>) = []
   \<and> hashQuery sample_runtime \<lparr>hash = Some \<lparr>secret = None, algorithm = None\<rparr>, logs = None\<rparr>
        \<lparr>connect_answer = None, connect_error_inline = False, query_answer = Inr [''row'']\<rparr>
        ''SELECT * FROM t WHERE {%id%}={&id&}''
        \<lparr>hash_fields = None, other_fields = Some [(''id'', JString ''7'')]\<rparr> Function Function
      = [ErrorHandler SecretMissing]"
  by (simp add: fields_of_def hashQuery_def resolve_def check_secret_def)

text \<open>
  Claim C3, amended. \<open>hashQuery\<close> and \<open>hashQuerySync\<close> fail with the configuration error
  of the guard whenever the hash configuration holds no secret, whether or not hash
  fields are requested, and with the configuration error of \<open>_hash\<close> when hash fields are
  requested and a secret but no algorithm is configured. Whenever the resolution fails, no
  statement reaches the database: the error goes to the error handler of \<open>hashQuery\<close>, and
  \<open>hashQuerySync\<close> returns \<open>undefined\<close>. With a secret configured, a call that requests no
  hash field (and whose other fields have names without syntax characters) needs no
  algorithm: it resolves, and its statement is sent once the pool hands out a client.
\<close>

theorem hashQuery_configuration_guard:
  "(hash cfg = Some h \<and> secret h = None \<longrightarrow> resolve rt cfg q vals = Inl SecretMissing)
   \<and> (hash cfga = Some ha \<and> secret ha = Some ka \<and> algorithm ha = None
        \<and> fields_of (hash_fields valsa) \<noteq> [] \<longrightarrow>
        resolve rt cfga q valsa = Inl HashConfigMissing)
   \<and> (resolve rt cfgb q valsb = Inl e \<longrightarrow>
        db_queries (hashQuery rt cfgb env q valsb callback error) = []
        \<and> hashQuery rt cfgb env q valsb callback Function = [ErrorHandler e]
        \<and> db_queries (fst (hashQuerySync rt cfgb env q valsb)) = []
        \<and> snd (hashQuerySync rt cfgb env q valsb) = Returns JUndefined)
   \<and> (hash cfgc = Some hc \<and> secret hc = Some kc \<and> fields_of (hash_fields valsc) = []
        \<and> distinct (keys (fields_of (other_fields valsc)))
        \<and> list_all plain (keys (fields_of (other_fields valsc)))
        \<and> connect_answer envc = None \<longrightarrow>
        (\<exists>q'. resolve rt cfgc q valsc = Inr (q', map snd (fields_of (other_fields valsc)))
           \<and> db_queries (hashQuery rt cfgc envc q valsc callback error)
               = [(q', map snd (fields_of (other_fields valsc)))]
           \<and> db_queries (fst (hashQuerySync rt cfgc envc q valsc))
               = [(q', map snd (fields_of (other_fields valsc)))]))"
proof (intro conjI impI)
  assume "hash cfg = Some h \<and> secret h = None"
  then show "resolve rt cfg q vals = Inl SecretMissing"
    by (simp add: resolve_no_secret)
next
  assume "hash cfga = Some ha \<and> secret ha = Some ka \<and> algorithm ha = None
    \<and> fields_of (hash_fields valsa) \<noteq> []"
  then show "resolve rt cfga q valsa = Inl HashConfigMissing"
    using resolve_no_algorithm by blast
next
  assume r: "resolve rt cfgb q valsb = Inl e"
  from failed_resolve_no_query [OF r]
  show "db_queries (hashQuery rt cfgb env q valsb callback error) = []"
    and "db_queries (fst (hashQuerySync rt cfgb env q valsb)) = []"
    and "snd (hashQuerySync rt cfgb env q valsb) = Returns JUndefined"
    by simp_all
  from r show "hashQuery rt cfgb env q valsb callback Function = [ErrorHandler e]"
    by (simp add: hashQuery_def)
next
  assume a: "hash cfgc = Some hc \<and> secret hc = Some kc \<and> fields_of (hash_fields valsc) = []
    \<and> distinct (keys (fields_of (other_fields valsc)))
    \<and> list_all plain (keys (fields_of (other_fields valsc)))
    \<and> connect_answer envc = None"
  then obtain q' where r: "resolve rt cfgc q valsc = Inr (q', map snd (fields_of (other_fields valsc)))"
    using resolve_other_only [of cfgc hc kc valsc rt q] by blast
  from hashQuery_sends [OF r] a r
  show "\<exists>q'. resolve rt cfgc q valsc = Inr (q', map snd (fields_of (other_fields valsc)))
     \<and> db_queries (hashQuery rt cfgc envc q valsc callback error)
         = [(q', map snd (fields_of (other_fields valsc)))]
     \<and> db_queries (fst (hashQuerySync rt cfgc envc q valsc))
         = [(q', map snd (fields_of (other_fields valsc)))]"
    by blast
qed

theorem hashQuery_configuration_guard_witness:
  "resolve sample_runtime \<lparr>hash = Some \<lparr>secret = None, algorithm = Some ''sha256''\<rparr>, logs = None\<rparr>
        ''SELECT * FROM t WHERE {%id%}={&id&}''
        \<lparr>hash_fields = Some [(''id'', JString ''7'')], other_fields = None\<rparr>
      = Inl SecretMissing
   \<and> fields_of (hash_fields \<lparr>hash_fields = Some [(''id'', JString ''7'')], other_fields = None\<rparr>) \<noteq> []
   \<and> resolve sample_runtime \<lparr>hash = Some \<lparr>secret = Some ''k'', algorithm = None\<rparr>, logs = None\<rparr>
        ''SELECT * FROM t WHERE {%id%}={&id&}''
        \<lparr>hash_fields = Some [(''id'', JString ''7'')], other_fields = None\<rparr>
      = Inl HashConfigMissing
   \<and> db_queries (hashQuery sample_runtime
        \<lparr>hash = Some \<lparr>secret = Some ''k'', algorithm = None\<rparr>, logs = None\<rparr>
        \<lparr>connect_answer = None, connect_error_inline = False, query_answer = Inr [''row'']\<rparr>
        ''SELECT * FROM t WHERE {%id%}={&id&}''
        \<lparr>hash_fields = Some [(''id'', JString ''7'')], other_fields = None\<rparr> Function Function) = []
   \<and> hashQuery sample_runtime
        \<lparr>hash = Some \<lparr>secret = Some ''k'', algorithm = None\<rparr>, logs = None\<rparr>
        \<lparr>connect_answer = None, connect_error_inline = False, query_answer = Inr [''row'']\<rparr>
        ''SELECT * FROM t WHERE {%id%}={&id&}''
        \<lparr>hash_fields = Some [(''id'', JString ''7'')], other_fields = None\<rparr> Function Function
      = [ErrorHandler HashConfigMissing]
   \<and> hashQuerySync sample_runtime
        \<lparr>hash = Some \<lparr>secret = Some ''k'', algorithm = None\<rparr>, logs = None\<rparr>
        \<lparr>connect_answer = None, connect_error_inline = False, query_answer = Inr [''row'']\<rparr>
        ''SELECT * FROM t WHERE {%id%}={&id&}''
        \<lparr>hash_fields = Some [(''id'', JString ''7'')], other_fields = None\<rparr>
      = ([ConsoleLogError HashConfigMissing], Returns JUndefined)
   \<and> list_all plain (keys (fields_of (other_fields
        \<lparr>hash_fields = None, other_fields = Some [(''id'', JString ''7'')]\<rparr>)))
   \<and> db_queries (hashQuery sample_runtime
        \<lparr>hash = Some \<lparr>secret = Some ''k'', algorithm = None\<rparr>, logs = None\<rparr>
        \<lparr>connect_answer = None, connect_error_inline = False, query_answer = Inr [''row'']\<rparr>
        ''SELECT * FROM t WHERE {%id%}={&id&}''
        \<lparr>hash_fields = None, other_fields = Some [(''id'', JString ''7'')]\<rparr> Function Function)
      = [(''SELECT * FROM t WHERE id=$1'', [JString ''7''])]"
proof -
  let ?env = "\<lparr>connect_answer = None, connect_error_inline = False, query_answer = Inr [''row'']\<rparr>"
  let ?q = "''SELECT * FROM t WHERE {%id%}={&id&}''"
  let ?hvals = "\<lparr>hash_fields = Some [(''id'', JString ''7'')], other_fields = None\<rparr>"
  let ?ovals = "\<lparr>hash_fields = None, other_fields = Some [(''id'', JString ''7'')]\<rparr>"
  let ?h0 = "\<lparr>secret = None, algorithm = Some ''sha256''\<rparr>"
  let ?h1 = "\<lparr>secret = Some ''k'', algorithm = None\<rparr>"
  have pl: "list_all plain (keys (fields_of (other_fields ?ovals)))"
    by (simp add: fields_of_def keys_def plain_def syntax_character_def)
  have ne: "fields_of (hash_fields ?hvals) \<noteq> []" and em: "fields_of (hash_fields ?ovals) = []"
    and di: "distinct (keys (fields_of (other_fields ?ovals)))"
    by (simp_all add: fields_of_def keys_def)
  note g = hashQuery_configuration_guard
    [where rt = sample_runtime and q = ?q and callback = Function and error = Function
       and cfg = "\<lparr>hash = Some ?h0, logs = None\<rparr>" and h = ?h0 and vals = ?hvals
       and cfga = "\<lparr>hash = Some ?h1, logs = None\<rparr>" and ha = ?h1 and ka = "''k''"
       and valsa = ?hvals
       and cfgb = "\<lparr>hash = Some ?h1, logs = None\<rparr>" and valsb = ?hvals
       and e = HashConfigMissing and env = ?env
       and cfgc = "\<lparr>hash = Some ?h1, logs = None\<rparr>" and hc = ?h1 and kc = "''k''"
       and valsc = ?ovals and envc = ?env]
  have a: "resolve sample_runtime \<lparr>hash = Some ?h0, logs = None\<rparr> ?q ?hvals = Inl SecretMissing"
    using g by simp
  have b: "resolve sample_runtime \<lparr>hash = Some ?h1, logs = None\<rparr> ?q ?hvals = Inl HashConfigMissing"
    using g ne by simp
  have c: "db_queries (hashQuery sample_runtime \<lparr>hash = Some ?h1, logs = None\<rparr> ?env ?q ?hvals
             Function Function) = []"
    using g b by simp
  have c': "hashQuery sample_runtime \<lparr>hash = Some ?h1, logs = None\<rparr> ?env ?q ?hvals
             Function Function = [ErrorHandler HashConfigMissing]"
    using g b by simp
  have d: "hashQuerySync sample_runtime \<lparr>hash = Some ?h1, logs = None\<rparr> ?env ?q ?hvals
           = ([ConsoleLogError HashConfigMissing], Returns JUndefined)"
    by (simp add: hashQuerySync_def check_secret_def private_prepareHashParams_def keys_def
        private_hash_def)
  have e: "db_queries (hashQuery sample_runtime \<lparr>hash = Some ?h1, logs = None\<rparr> ?env ?q ?ovals
             Function Function) = [(''SELECT * FROM t WHERE id=$1'', [JString ''7''])]"
  proof -
    from g pl em di obtain q' where
      "resolve sample_runtime \<lparr>hash = Some ?h1, logs = None\<rparr> ?q ?ovals
         = Inr (q', map snd (fields_of (other_fields ?ovals)))"
      and "db_queries (hashQuery sample_runtime \<lparr>hash = Some ?h1, logs = None\<rparr> ?env ?q ?ovals
             Function Function) = [(q', map snd (fields_of (other_fields ?ovals)))]"
      by auto
    then show ?thesis
      by (simp add: resolve_id_example fields_of_def)
  qed
  from a ne b c c' d pl e show ?thesis
    by blast
qed

subsection \<open>Computing digests\<close>

text \<open>
  The operations on words, carried over to bit lists.
\<close>

lemma bit_wv: "bit (wv bs) n \<longleftrightarrow> n < 32 \<and> n < length bs \<and> bs ! n"
  by (auto simp: wv_def bit_horner_sum_bit_word_iff)

lemma length_xorl [simp]: "length (xorl as bs) = min (length as) (length bs)"
  by (induction as bs rule: xorl.induct) simp_all

lemma nth_xorl: "n < length as \<Longrightarrow> n < length bs \<Longrightarrow> xorl as bs ! n = (as ! n \<noteq> bs ! n)"
  by (induction as bs arbitrary: n rule: xorl.induct) (auto simp: nth_Cons')

lemma length_andl [simp]: "length (andl as bs) = min (length as) (length bs)"
  by (induction as bs rule: andl.induct) simp_all

lemma nth_andl: "n < length as \<Longrightarrow> n < length bs \<Longrightarrow> andl as bs ! n = (as ! n \<and> bs ! n)"
  by (induction as bs arbitrary: n rule: andl.induct) (auto simp: nth_Cons')

lemma length_orl [simp]: "length (orl as bs) = min (length as) (length bs)"
  by (induction as bs rule: orl.induct) simp_all

lemma nth_orl: "n < length as \<Longrightarrow> n < length bs \<Longrightarrow> orl as bs ! n = (as ! n \<or> bs ! n)"
  by (induction as bs arbitrary: n rule: orl.induct) (auto simp: nth_Cons')

lemma wv_xor: "length as = length bs \<Longrightarrow> wv as XOR wv bs = wv (xorl as bs)"
  by (rule bit_word_eqI) (auto simp: bit_wv bit_xor_iff nth_xorl)

lemma wv_and: "length as = length bs \<Longrightarrow> wv as AND wv bs = wv (andl as bs)"
  by (rule bit_word_eqI) (auto simp: bit_wv bit_and_iff nth_andl)

lemma wv_or: "length as = length bs \<Longrightarrow> wv as OR wv bs = wv (orl as bs)"
  by (rule bit_word_eqI) (auto simp: bit_wv bit_or_iff nth_orl)

lemma wv_not: "length as = 32 \<Longrightarrow> NOT (wv as) = wv (map Not as)"
  by (rule bit_word_eqI) (auto simp: bit_wv bit_not_iff)

lemma wv_drop_bit: "length as = 32 \<Longrightarrow> drop_bit n (wv as) = wv (drop n as @ replicate n False)"
  by (rule bit_word_eqI) (auto simp: bit_wv bit_drop_bit_eq nth_append add.commute)

lemma wv_rotr: "length as = 32 \<Longrightarrow> n \<le> 32 \<Longrightarrow>
  drop_bit n (wv as) OR push_bit (32 - n) (wv as) = wv (drop n as @ take n as)"
  by (rule bit_word_eqI) (auto simp: bit_wv bit_or_iff bit_drop_bit_eq bit_push_bit_iff nth_append add.commute)

lemma notl_map: "notl as = map Not as"
  by (induction as) simp_all

lemma wv_nv: "wv bs = of_nat (nv bs)"
  by (induction bs) (simp_all add: wv_def nv_def)

lemma bool_sum: "of_bool a + of_bool b + of_bool c =
  (of_bool ((a \<noteq> b) \<noteq> c) + 2 * of_bool ((a \<and> b) \<or> (c \<and> (a \<noteq> b))) :: nat)"
  by (cases a; cases b; cases c) simp_all

lemma mod_double: "x < 2 \<Longrightarrow> (x + 2 * y) mod (2 * m) = x + 2 * (y mod m)" for x y m :: nat
  using mod_mult2_eq [of "x + 2 * y" 2 m] by simp

lemma nv_addc:
  "length as = length bs \<Longrightarrow>
   nv (addc c as bs) = (of_bool c + nv as + nv bs) mod 2 ^ length as"
proof (induction as bs arbitrary: c rule: list_induct2)
  case Nil
  then show ?case by (simp add: nv_def)
next
  case (Cons a as b bs)
  let ?x = "(a \<noteq> b) \<noteq> c" and ?c' = "(a \<and> b) \<or> (c \<and> (a \<noteq> b))"
  have "of_bool c + nv (a # as) + nv (b # bs) = (of_bool a + of_bool b + of_bool c) + 2 * (nv as + nv bs)"
    by (simp add: nv_def)
  also have "\<dots> = of_bool ?x + 2 * (of_bool ?c' + nv as + nv bs)"
    by (simp only: bool_sum) simp
  finally have "(of_bool c + nv (a # as) + nv (b # bs)) mod 2 ^ length (a # as)
      = (of_bool ?x + 2 * (of_bool ?c' + nv as + nv bs)) mod (2 * 2 ^ length as)"
    by simp
  also have "\<dots> = of_bool ?x + 2 * ((of_bool ?c' + nv as + nv bs) mod 2 ^ length as)"
    by (rule mod_double) simp
  also have "\<dots> = nv (addc c (a # as) (b # bs))"
    using Cons.IH [of ?c'] by (simp add: nv_def)
  finally show ?case by simp
qed

lemma of_nat_mod32: "(of_nat (x mod 2 ^ 32) :: w32) = of_nat x"
  unfolding word_of_nat_eq_iff take_bit_eq_mod by simp

lemma wv_add: "length as = 32 \<Longrightarrow> length bs = 32 \<Longrightarrow> wv as + wv bs = wv (addc False as bs)"
proof -
  assume l: "length as = 32" "length bs = 32"
  then have "nv (addc False as bs) = (nv as + nv bs) mod 2 ^ 32"
    using nv_addc [of as bs False] by simp
  then have "wv (addc False as bs) = of_nat ((nv as + nv bs) mod 2 ^ 32)"
    by (simp add: wv_nv)
  also have "\<dots> = (of_nat (nv as + nv bs) :: w32)"
    by (rule of_nat_mod32)
  finally show ?thesis
    by (simp add: wv_nv)
qed

lemma wv_Cons: "wv (b # bs) = of_bool b + 2 * wv bs"
  by (simp add: wv_def)

lemma wv_num_bits: "wv (num_bits k) = numeral k"
proof (induction k)
  case One
  then show ?case by (simp add: wv_def)
next
  case (Bit0 k)
  have "wv (num_bits (num.Bit0 k)) = 2 * wv (num_bits k)"
    by (simp add: wv_Cons)
  also have "\<dots> = numeral k + numeral k"
    by (simp only: Bit0 mult_2)
  finally show ?case
    by (simp only: numeral_Bit0)
next
  case (Bit1 k)
  have "wv (num_bits (num.Bit1 k)) = 1 + 2 * wv (num_bits k)"
    by (simp add: wv_Cons)
  also have "\<dots> = numeral k + numeral k + 1"
    by (simp only: Bit1 mult_2 add.commute)
  finally show ?case
    by (simp only: numeral_Bit1)
qed

lemma length_fit_like [simp]: "length (fit_like ts xs) = length ts"
  by (induction ts xs rule: fit_like.induct) simp_all

lemma nth_fit_like: "n < length ts \<Longrightarrow> fit_like ts xs ! n = (n < length xs \<and> xs ! n)"
  by (induction ts xs arbitrary: n rule: fit_like.induct) (auto simp: nth_Cons')

lemma wv_fit_like: "length ts = 32 \<Longrightarrow> wv (fit_like ts xs) = wv xs"
  by (rule bit_word_eqI) (auto simp: bit_wv nth_fit_like)

lemma numeral_wv: "(numeral k :: w32) = wv (fit_like [(), (), (), (), (), (), (), (), (), (), (), (), (), (), (), (), (), (), (), (), (), (), (), (), (), (), (), (), (), (), (), ()] (num_bits k))"
  by (simp add: wv_fit_like wv_num_bits)

lemma zero_wv: "(0 :: w32) = wv (fit_like [(), (), (), (), (), (), (), (), (), (), (), (), (), (), (), (), (), (), (), (), (), (), (), (), (), (), (), (), (), (), (), ()] [])"
  by (simp add: wv_fit_like) (simp add: wv_def)

lemma one_wv: "(1 :: w32) = wv (fit_like [(), (), (), (), (), (), (), (), (), (), (), (), (), (), (), (), (), (), (), (), (), (), (), (), (), (), (), (), (), (), (), ()] [True])"
  by (simp add: wv_fit_like) (simp add: wv_def)

lemma xor32:
  "wv [a0, a1, a2, a3, a4, a5, a6, a7, a8, a9, a10, a11, a12, a13, a14, a15, a16, a17, a18, a19, a20, a21, a22, a23, a24, a25, a26, a27, a28, a29, a30, a31] XOR wv [b0, b1, b2, b3, b4, b5, b6, b7, b8, b9, b10, b11, b12, b13, b14, b15, b16, b17, b18, b19, b20, b21, b22, b23, b24, b25, b26, b27, b28, b29, b30, b31] =
   wv (xorl [a0, a1, a2, a3, a4, a5, a6, a7, a8, a9, a10, a11, a12, a13, a14, a15, a16, a17, a18, a19, a20, a21, a22, a23, a24, a25, a26, a27, a28, a29, a30, a31] [b0, b1, b2, b3, b4, b5, b6, b7, b8, b9, b10, b11, b12, b13, b14, b15, b16, b17, b18, b19, b20, b21, b22, b23, b24, b25, b26, b27, b28, b29, b30, b31])"
  by (simp add: wv_xor)

lemma and32:
  "wv [a0, a1, a2, a3, a4, a5, a6, a7, a8, a9, a10, a11, a12, a13, a14, a15, a16, a17, a18, a19, a20, a21, a22, a23, a24, a25, a26, a27, a28, a29, a30, a31] AND wv [b0, b1, b2, b3, b4, b5, b6, b7, b8, b9, b10, b11, b12, b13, b14, b15, b16, b17, b18, b19, b20, b21, b22, b23, b24, b25, b26, b27, b28, b29, b30, b31] =
   wv (andl [a0, a1, a2, a3, a4, a5, a6, a7, a8, a9, a10, a11, a12, a13, a14, a15, a16, a17, a18, a19, a20, a21, a22, a23, a24, a25, a26, a27, a28, a29, a30, a31] [b0, b1, b2, b3, b4, b5, b6, b7, b8, b9, b10, b11, b12, b13, b14, b15, b16, b17, b18, b19, b20, b21, b22, b23, b24, b25, b26, b27, b28, b29, b30, b31])"
  by (simp add: wv_and)

lemma or32:
  "wv [a0, a1, a2, a3, a4, a5, a6, a7, a8, a9, a10, a11, a12, a13, a14, a15, a16, a17, a18, a19, a20, a21, a22, a23, a24, a25, a26, a27, a28, a29, a30, a31] OR wv [b0, b1, b2, b3, b4, b5, b6, b7, b8, b9, b10, b11, b12, b13, b14, b15, b16, b17, b18, b19, b20, b21, b22, b23, b24, b25, b26, b27, b28, b29, b30, b31] =
   wv (orl [a0, a1, a2, a3, a4, a5, a6, a7, a8, a9, a10, a11, a12, a13, a14, a15, a16, a17, a18, a19, a20, a21, a22, a23, a24, a25, a26, a27, a28, a29, a30, a31] [b0, b1, b2, b3, b4, b5, b6, b7, b8, b9, b10, b11, b12, b13, b14, b15, b16, b17, b18, b19, b20, b21, b22, b23, b24, b25, b26, b27, b28, b29, b30, b31])"
  by (simp add: wv_or)

lemma not32:
  "NOT (wv [a0, a1, a2, a3, a4, a5, a6, a7, a8, a9, a10, a11, a12, a13, a14, a15, a16, a17, a18, a19, a20, a21, a22, a23, a24, a25, a26, a27, a28, a29, a30, a31]) = wv (notl [a0, a1, a2, a3, a4, a5, a6, a7, a8, a9, a10, a11, a12, a13, a14, a15, a16, a17, a18, a19, a20, a21, a22, a23, a24, a25, a26, a27, a28, a29, a30, a31])"
  by (simp add: wv_not notl_map)

lemma add32:
  "wv [a0, a1, a2, a3, a4, a5, a6, a7, a8, a9, a10, a11, a12, a13, a14, a15, a16, a17, a18, a19, a20, a21, a22, a23, a24, a25, a26, a27, a28, a29, a30, a31] + wv [b0, b1, b2, b3, b4, b5, b6, b7, b8, b9, b10, b11, b12, b13, b14, b15, b16, b17, b18, b19, b20, b21, b22, b23, b24, b25, b26, b27, b28, b29, b30, b31] =
   wv (addc False [a0, a1, a2, a3, a4, a5, a6, a7, a8, a9, a10, a11, a12, a13, a14, a15, a16, a17, a18, a19, a20, a21, a22, a23, a24, a25, a26, a27, a28, a29, a30, a31] [b0, b1, b2, b3, b4, b5, b6, b7, b8, b9, b10, b11, b12, b13, b14, b15, b16, b17, b18, b19, b20, b21, b22, b23, b24, b25, b26, b27, b28, b29, b30, b31])"
  by (simp add: wv_add)

lemma rotr2:
  "rotr 2 (wv [a0, a1, a2, a3, a4, a5, a6, a7, a8, a9, a10, a11, a12, a13, a14, a15, a16, a17, a18, a19, a20, a21, a22, a23, a24, a25, a26, a27, a28, a29, a30, a31]) =
   wv [a2, a3, a4, a5, a6, a7, a8, a9, a10, a11, a12, a13, a14, a15, a16, a17, a18, a19, a20, a21, a22, a23, a24, a25, a26, a27, a28, a29, a30, a31, a0, a1]"
  using wv_rotr [of "[a0, a1, a2, a3, a4, a5, a6, a7, a8, a9, a10, a11, a12, a13, a14, a15, a16, a17, a18, a19, a20, a21, a22, a23, a24, a25, a26, a27, a28, a29, a30, a31]" 2] by (simp add: rotr_def)

lemma rotr6:
  "rotr 6 (wv [a0, a1, a2, a3, a4, a5, a6, a7, a8, a9, a10, a11, a12, a13, a14, a15, a16, a17, a18, a19, a20, a21, a22, a23, a24, a25, a26, a27, a28, a29, a30, a31]) =
   wv [a6, a7, a8, a9, a10, a11, a12, a13, a14, a15, a16, a17, a18, a19, a20, a21, a22, a23, a24, a25, a26, a27, a28, a29, a30, a31, a0, a1, a2, a3, a4, a5]"
  using wv_rotr [of "[a0, a1, a2, a3, a4, a5, a6, a7, a8, a9, a10, a11, a12, a13, a14, a15, a16, a17, a18, a19, a20, a21, a22, a23, a24, a25, a26, a27, a28, a29, a30, a31]" 6] by (simp add: rotr_def)

lemma rotr7:
  "rotr 7 (wv [a0, a1, a2, a3, a4, a5, a6, a7, a8, a9, a10, a11, a12, a13, a14, a15, a16, a17, a18, a19, a20, a21, a22, a23, a24, a25, a26, a27, a28, a29, a30, a31]) =
   wv [a7, a8, a9, a10, a11, a12, a13, a14, a15, a16, a17, a18, a19, a20, a21, a22, a23, a24, a25, a26, a27, a28, a29, a30, a31, a0, a1, a2, a3, a4, a5, a6]"
  using wv_rotr [of "[a0, a1, a2, a3, a4, a5, a6, a7, a8, a9, a10, a11, a12, a13, a14, a15, a16, a17, a18, a19, a20, a21, a22, a23, a24, a25, a26, a27, a28, a29, a30, a31]" 7] by (simp add: rotr_def)

lemma rotr11:
  "rotr 11 (wv [a0, a1, a2, a3, a4, a5, a6, a7, a8, a9, a10, a11, a12, a13, a14, a15, a16, a17, a18, a19, a20, a21, a22, a23, a24, a25, a26, a27, a28, a29, a30, a31]) =
   wv [a11, a12, a13, a14, a15, a16, a17, a18, a19, a20, a21, a22, a23, a24, a25, a26, a27, a28, a29, a30, a31, a0, a1, a2, a3, a4, a5, a6, a7, a8, a9, a10]"
  using wv_rotr [of "[a0, a1, a2, a3, a4, a5, a6, a7, a8, a9, a10, a11, a12, a13, a14, a15, a16, a17, a18, a19, a20, a21, a22, a23, a24, a25, a26, a27, a28, a29, a30, a31]" 11] by (simp add: rotr_def)

lemma rotr13:
  "rotr 13 (wv [a0, a1, a2, a3, a4, a5, a6, a7, a8, a9, a10, a11, a12, a13, a14, a15, a16, a17, a18, a19, a20, a21, a22, a23, a24, a25, a26, a27, a28, a29, a30, a31]) =
   wv [a13, a14, a15, a16, a17, a18, a19, a20, a21, a22, a23, a24, a25, a26, a27, a28, a29, a30, a31, a0, a1, a2, a3, a4, a5, a6, a7, a8, a9, a10, a11, a12]"
  using wv_rotr [of "[a0, a1, a2, a3, a4, a5, a6, a7, a8, a9, a10, a11, a12, a13, a14, a15, a16, a17, a18, a19, a20, a21, a22, a23, a24, a25, a26, a27, a28, a29, a30, a31]" 13] by (simp add: rotr_def)

lemma rotr17:
  "rotr 17 (wv [a0, a1, a2, a3, a4, a5, a6, a7, a8, a9, a10, a11, a12, a13, a14, a15, a16, a17, a18, a19, a20, a21, a22, a23, a24, a25, a26, a27, a28, a29, a30, a31]) =
   wv [a17, a18, a19, a20, a21, a22, a23, a24, a25, a26, a27, a28, a29, a30, a31, a0, a1, a2, a3, a4, a5, a6, a7, a8, a9, a10, a11, a12, a13, a14, a15, a16]"
  using wv_rotr [of "[a0, a1, a2, a3, a4, a5, a6, a7, a8, a9, a10, a11, a12, a13, a14, a15, a16, a17, a18, a19, a20, a21, a22, a23, a24, a25, a26, a27, a28, a29, a30, a31]" 17] by (simp add: rotr_def)

lemma rotr18:
  "rotr 18 (wv [a0, a1, a2, a3, a4, a5, a6, a7, a8, a9, a10, a11, a12, a13, a14, a15, a16, a17, a18, a19, a20, a21, a22, a23, a24, a25, a26, a27, a28, a29, a30, a31]) =
   wv [a18, a19, a20, a21, a22, a23, a24, a25, a26, a27, a28, a29, a30, a31, a0, a1, a2, a3, a4, a5, a6, a7, a8, a9, a10, a11, a12, a13, a14, a15, a16, a17]"
  using wv_rotr [of "[a0, a1, a2, a3, a4, a5, a6, a7, a8, a9, a10, a11, a12, a13, a14, a15, a16, a17, a18, a19, a20, a21, a22, a23, a24, a25, a26, a27, a28, a29, a30, a31]" 18] by (simp add: rotr_def)

lemma rotr19:
  "rotr 19 (wv [a0, a1, a2, a3, a4, a5, a6, a7, a8, a9, a10, a11, a12, a13, a14, a15, a16, a17, a18, a19, a20, a21, a22, a23, a24, a25, a26, a27, a28, a29, a30, a31]) =
   wv [a19, a20, a21, a22, a23, a24, a25, a26, a27, a28, a29, a30, a31, a0, a1, a2, a3, a4, a5, a6, a7, a8, a9, a10, a11, a12, a13, a14, a15, a16, a17, a18]"
  using wv_rotr [of "[a0, a1, a2, a3, a4, a5, a6, a7, a8, a9, a10, a11, a12, a13, a14, a15, a16, a17, a18, a19, a20, a21, a22, a23, a24, a25, a26, a27, a28, a29, a30, a31]" 19] by (simp add: rotr_def)

lemma rotr22:
  "rotr 22 (wv [a0, a1, a2, a3, a4, a5, a6, a7, a8, a9, a10, a11, a12, a13, a14, a15, a16, a17, a18, a19, a20, a21, a22, a23, a24, a25, a26, a27, a28, a29, a30, a31]) =
   wv [a22, a23, a24, a25, a26, a27, a28, a29, a30, a31, a0, a1, a2, a3, a4, a5, a6, a7, a8, a9, a10, a11, a12, a13, a14, a15, a16, a17, a18, a19, a20, a21]"
  using wv_rotr [of "[a0, a1, a2, a3, a4, a5, a6, a7, a8, a9, a10, a11, a12, a13, a14, a15, a16, a17, a18, a19, a20, a21, a22, a23, a24, a25, a26, a27, a28, a29, a30, a31]" 22] by (simp add: rotr_def)

lemma rotr25:
  "rotr 25 (wv [a0, a1, a2, a3, a4, a5, a6, a7, a8, a9, a10, a11, a12, a13, a14, a15, a16, a17, a18, a19, a20, a21, a22, a23, a24, a25, a26, a27, a28, a29, a30, a31]) =
   wv [a25, a26, a27, a28, a29, a30, a31, a0, a1, a2, a3, a4, a5, a6, a7, a8, a9, a10, a11, a12, a13, a14, a15, a16, a17, a18, a19, a20, a21, a22, a23, a24]"
  using wv_rotr [of "[a0, a1, a2, a3, a4, a5, a6, a7, a8, a9, a10, a11, a12, a13, a14, a15, a16, a17, a18, a19, a20, a21, a22, a23, a24, a25, a26, a27, a28, a29, a30, a31]" 25] by (simp add: rotr_def)

lemma shr3:
  "drop_bit 3 (wv [a0, a1, a2, a3, a4, a5, a6, a7, a8, a9, a10, a11, a12, a13, a14, a15, a16, a17, a18, a19, a20, a21, a22, a23, a24, a25, a26, a27, a28, a29, a30, a31]) =
   wv [a3, a4, a5, a6, a7, a8, a9, a10, a11, a12, a13, a14, a15, a16, a17, a18, a19, a20, a21, a22, a23, a24, a25, a26, a27, a28, a29, a30, a31, False, False, False]"
  using wv_drop_bit [of "[a0, a1, a2, a3, a4, a5, a6, a7, a8, a9, a10, a11, a12, a13, a14, a15, a16, a17, a18, a19, a20, a21, a22, a23, a24, a25, a26, a27, a28, a29, a30, a31]" 3] by (simp add: numeral_eq_Suc)

lemma shr10:
  "drop_bit 10 (wv [a0, a1, a2, a3, a4, a5, a6, a7, a8, a9, a10, a11, a12, a13, a14, a15, a16, a17, a18, a19, a20, a21, a22, a23, a24, a25, a26, a27, a28, a29, a30, a31]) =
   wv [a10, a11, a12, a13, a14, a15, a16, a17, a18, a19, a20, a21, a22, a23, a24, a25, a26, a27, a28, a29, a30, a31, False, False, False, False, False, False, False, False, False, False]"
  using wv_drop_bit [of "[a0, a1, a2, a3, a4, a5, a6, a7, a8, a9, a10, a11, a12, a13, a14, a15, a16, a17, a18, a19, a20, a21, a22, a23, a24, a25, a26, a27, a28, a29, a30, a31]" 10] by (simp add: numeral_eq_Suc)

lemma xorl_lit:
  "xorl (False # as) (False # bs) = False # xorl as bs"
  "xorl (False # as) (True # bs) = True # xorl as bs"
  "xorl (True # as) (False # bs) = True # xorl as bs"
  "xorl (True # as) (True # bs) = False # xorl as bs"
  "xorl [] [] = []"
  by simp_all

lemma andl_lit:
  "andl (False # as) (False # bs) = False # andl as bs"
  "andl (False # as) (True # bs) = False # andl as bs"
  "andl (True # as) (False # bs) = False # andl as bs"
  "andl (True # as) (True # bs) = True # andl as bs"
  "andl [] [] = []"
  by simp_all

lemma orl_lit:
  "orl (False # as) (False # bs) = False # orl as bs"
  "orl (False # as) (True # bs) = True # orl as bs"
  "orl (True # as) (False # bs) = True # orl as bs"
  "orl (True # as) (True # bs) = True # orl as bs"
  "orl [] [] = []"
  by simp_all

lemma notl_lit:
  "notl (True # as) = False # notl as"
  "notl (False # as) = True # notl as"
  "notl [] = []"
  by simp_all

lemma addc_lit:
  "addc False (False # as) (False # bs) = False # addc False as bs"
  "addc False (False # as) (True # bs) = True # addc False as bs"
  "addc False (True # as) (False # bs) = True # addc False as bs"
  "addc False (True # as) (True # bs) = False # addc True as bs"
  "addc True (False # as) (False # bs) = True # addc False as bs"
  "addc True (False # as) (True # bs) = False # addc True as bs"
  "addc True (True # as) (False # bs) = False # addc True as bs"
  "addc True (True # as) (True # bs) = True # addc True as bs"
  "addc c [] [] = []"
  by simp_all


lemma schedule_numeral: "schedule (numeral n) ws = schedule (pred_numeral n) (next_word ws # ws)"
  by (simp add: numeral_eq_Suc)

lemmas sha_eval =
  compress_def K256_def ssig0_def ssig1_def bsig0_def bsig1_def ch_def maj_def
  next_word.simps(1) schedule.simps(1) schedule_numeral pred_numeral_simps BitM.simps
  shift_in.simps(1) round1.simps(1) rounds.simps(1) rounds.simps(2)
  add_words.simps(1) add_words.simps(2) rev.simps append.simps
  numeral_wv zero_wv one_wv fit_like.simps num_bits.simps
  xor32 and32 or32 not32 add32
  rotr2 rotr6 rotr7 rotr11 rotr13 rotr17 rotr18 rotr19 rotr22 rotr25 shr3 shr10
  xorl_lit andl_lit orl_lit notl_lit addc_lit

lemma replicate_numeral: "replicate (numeral k) x = x # replicate (pred_numeral k) x"
  by (simp add: numeral_eq_Suc)

lemma upt_0_8: "[0..<8] = [0, 1, 2, 3, 4, 5, 6, 7]"
  by (simp add: upt_conv_Cons)

text \<open>The one-block example of the standard: the digest of \<open>abc\<close>.\<close>

lemma abc_blocks:
  "blocks (be32 (pad [97, 98, 99]))
   = [[1633837952, 0, 0, 0, 0, 0, 0, 0,
       0, 0, 0, 0, 0, 0, 0, 24]]"
  by (simp add: pad_def Let_def replicate_numeral upt_0_8)

lemma abc_compress:
  "compress [1779033703, 3144134277, 1013904242, 2773480762,
           1359893119, 2600822924, 528734635, 1541459225]
     [1633837952, 0, 0, 0, 0, 0, 0, 0,
     0, 0, 0, 0, 0, 0, 0, 24]
   = [3128432319, 2399260650, 1094795486, 1571693091,
     2953011619, 2518121116, 3021012833, 4060091821]"
  by (simp only: sha_eval)

lemma sha256_abc:
  "hex (sha256 (bytes ''abc'')) = ''ba7816bf8f01cfea414140de5dae2223b00361a396177a9cb410ff61f20015ad''"
  by (simp add: bytes_def sha256_def H256_def unbe32_def abc_blocks abc_compress hex_def hexdigit_def)

text \<open>
  HMAC-SHA256 of \<open>alice\<close> under the key \<open>k\<close>, step by step: the two blocks of the inner
  message (the key block xored with the inner pad, then the padded data), the chaining
  values after each block, the inner digest, and the same for the outer message.
\<close>

lemma inner_k_blocks:
  "blocks (be32 (pad
     [93, 54, 54, 54, 54, 54, 54, 54, 54, 54, 54, 54, 54, 54, 54, 54,
     54, 54, 54, 54, 54, 54, 54, 54, 54, 54, 54, 54, 54, 54, 54, 54,
     54, 54, 54, 54, 54, 54, 54, 54, 54, 54, 54, 54, 54, 54, 54, 54,
     54, 54, 54, 54, 54, 54, 54, 54, 54, 54, 54, 54, 54, 54, 54, 54,
     97, 108, 105, 99, 101]))
   = [[1563833910, 909522486, 909522486, 909522486, 909522486, 909522486, 909522486, 909522486,
       909522486, 909522486, 909522486, 909522486, 909522486, 909522486, 909522486, 909522486],
      [1634494819, 1702887424, 0, 0, 0, 0, 0, 0,
       0, 0, 0, 0, 0, 0, 0, 552]]"
  by (simp add: pad_def Let_def replicate_numeral upt_0_8)

lemma inner_k_compress1:
  "compress [1779033703, 3144134277, 1013904242, 2773480762,
           1359893119, 2600822924, 528734635, 1541459225]
     [1563833910, 909522486, 909522486, 909522486, 909522486, 909522486, 909522486, 909522486,
     909522486, 909522486, 909522486, 909522486, 909522486, 909522486, 909522486, 909522486]
   = [3690320081, 3937412416, 514508918, 3184350150,
     1139450408, 531523931, 3833582886, 4168685675]"
  by (simp only: sha_eval)

lemma inner_k_compress2:
  "compress [3690320081, 3937412416, 514508918, 3184350150,
           1139450408, 531523931, 3833582886, 4168685675]
     [1634494819, 1702887424, 0, 0, 0, 0, 0, 0,
     0, 0, 0, 0, 0, 0, 0, 552]
   = [2406633627, 745540990, 2893959247, 1818224314,
     956508817, 4188540281, 3998050592, 355170570]"
  by (simp only: sha_eval)

lemma inner_k_digest:
  "sha256
     [93, 54, 54, 54, 54, 54, 54, 54, 54, 54, 54, 54, 54, 54, 54, 54,
     54, 54, 54, 54, 54, 54, 54, 54, 54, 54, 54, 54, 54, 54, 54, 54,
     54, 54, 54, 54, 54, 54, 54, 54, 54, 54, 54, 54, 54, 54, 54, 54,
     54, 54, 54, 54, 54, 54, 54, 54, 54, 54, 54, 54, 54, 54, 54, 54,
     97, 108, 105, 99, 101]
   = [143, 114, 80, 155, 44, 112, 13, 126, 172, 126, 80, 79, 108, 95, 230, 186,
     57, 3, 42, 145, 249, 168, 13, 121, 238, 77, 105, 32, 21, 43, 121, 10]"
  by (simp add: sha256_def H256_def unbe32_def inner_k_blocks inner_k_compress1 inner_k_compress2)

lemma outer_k_blocks:
  "blocks (be32 (pad
     [55, 92, 92, 92, 92, 92, 92, 92, 92, 92, 92, 92, 92, 92, 92, 92,
     92, 92, 92, 92, 92, 92, 92, 92, 92, 92, 92, 92, 92, 92, 92, 92,
     92, 92, 92, 92, 92, 92, 92, 92, 92, 92, 92, 92, 92, 92, 92, 92,
     92, 92, 92, 92, 92, 92, 92, 92, 92, 92, 92, 92, 92, 92, 92, 92,
     143, 114, 80, 155, 44, 112, 13, 126, 172, 126, 80, 79, 108, 95, 230, 186,
     57, 3, 42, 145, 249, 168, 13, 121, 238, 77, 105, 32, 21, 43, 121, 10]))
   = [[928799836, 1549556828, 1549556828, 1549556828, 1549556828, 1549556828, 1549556828, 1549556828,
       1549556828, 1549556828, 1549556828, 1549556828, 1549556828, 1549556828, 1549556828, 1549556828],
      [2406633627, 745540990, 2893959247, 1818224314, 956508817, 4188540281, 3998050592, 355170570,
       2147483648, 0, 0, 0, 0, 0, 0, 768]]"
  by (simp add: pad_def Let_def replicate_numeral upt_0_8)

lemma outer_k_compress1:
  "compress [1779033703, 3144134277, 1013904242, 2773480762,
           1359893119, 2600822924, 528734635, 1541459225]
     [928799836, 1549556828, 1549556828, 1549556828, 1549556828, 1549556828, 1549556828, 1549556828,
     1549556828, 1549556828, 1549556828, 1549556828, 1549556828, 1549556828, 1549556828, 1549556828]
   = [1124968994, 333640425, 3398940844, 2892595454,
     3493942986, 552989959, 3679927956, 1637605473]"
  by (simp only: sha_eval)

lemma outer_k_compress2:
  "compress [1124968994, 333640425, 3398940844, 2892595454,
           3493942986, 552989959, 3679927956, 1637605473]
     [2406633627, 745540990, 2893959247, 1818224314, 956508817, 4188540281, 3998050592, 355170570,
     2147483648, 0, 0, 0, 0, 0, 0, 768]
   = [3965917781, 3145856441, 3700861587, 172319373,
     1160429121, 4170832656, 2243704076, 211614113]"
  by (simp only: sha_eval)

lemma outer_k_digest:
  "sha256
     [55, 92, 92, 92, 92, 92, 92, 92, 92, 92, 92, 92, 92, 92, 92, 92,
     92, 92, 92, 92, 92, 92, 92, 92, 92, 92, 92, 92, 92, 92, 92, 92,
     92, 92, 92, 92, 92, 92, 92, 92, 92, 92, 92, 92, 92, 92, 92, 92,
     92, 92, 92, 92, 92, 92, 92, 92, 92, 92, 92, 92, 92, 92, 92, 92,
     143, 114, 80, 155, 44, 112, 13, 126, 172, 126, 80, 79, 108, 95, 230, 186,
     57, 3, 42, 145, 249, 168, 13, 121, 238, 77, 105, 32, 21, 43, 121, 10]
   = [236, 99, 26, 85, 187, 129, 245, 185, 220, 150, 170, 147, 10, 69, 98, 141,
     69, 42, 190, 65, 248, 153, 219, 16, 133, 188, 53, 12, 12, 156, 249, 161]"
  by (simp add: sha256_def H256_def unbe32_def outer_k_blocks outer_k_compress1 outer_k_compress2)

lemma hmac_k:
  "hex_hmac_sha256 ''k'' ''alice'' = ''ec631a55bb81f5b9dc96aa930a45628d452abe41f899db1085bc350c0c9cf9a1''"
  by (simp add: hex_hmac_sha256_def hmac_sha256_def bytes_def Let_def replicate_numeral
      inner_k_digest outer_k_digest hex_def hexdigit_def)

text \<open>The same under the key \<open>j\<close>.\<close>

lemma inner_j_blocks:
  "blocks (be32 (pad
     [92, 54, 54, 54, 54, 54, 54, 54, 54, 54, 54, 54, 54, 54, 54, 54,
     54, 54, 54, 54, 54, 54, 54, 54, 54, 54, 54, 54, 54, 54, 54, 54,
     54, 54, 54, 54, 54, 54, 54, 54, 54, 54, 54, 54, 54, 54, 54, 54,
     54, 54, 54, 54, 54, 54, 54, 54, 54, 54, 54, 54, 54, 54, 54, 54,
     97, 108, 105, 99, 101]))
   = [[1547056694, 909522486, 909522486, 909522486, 909522486, 909522486, 909522486, 909522486,
       909522486, 909522486, 909522486, 909522486, 909522486, 909522486, 909522486, 909522486],
      [1634494819, 1702887424, 0, 0, 0, 0, 0, 0,
       0, 0, 0, 0, 0, 0, 0, 552]]"
  by (simp add: pad_def Let_def replicate_numeral upt_0_8)

lemma inner_j_compress1:
  "compress [1779033703, 3144134277, 1013904242, 2773480762,
           1359893119, 2600822924, 528734635, 1541459225]
     [1547056694, 909522486, 909522486, 909522486, 909522486, 909522486, 909522486, 909522486,
     909522486, 909522486, 909522486, 909522486, 909522486, 909522486, 909522486, 909522486]
   = [1509370562, 3630386630, 3584569653, 3094005859,
     3752353424, 3629927333, 3855131915, 4043126984]"
  by (simp only: sha_eval)

lemma inner_j_compress2:
  "compress [1509370562, 3630386630, 3584569653, 3094005859,
           3752353424, 3629927333, 3855131915, 4043126984]
     [1634494819, 1702887424, 0, 0, 0, 0, 0, 0,
     0, 0, 0, 0, 0, 0, 0, 552]
   = [379528213, 245263137, 733091366, 335065300,
     3559888718, 142763836, 2977582321, 684279367]"
  by (simp only: sha_eval)

lemma inner_j_digest:
  "sha256
     [92, 54, 54, 54, 54, 54, 54, 54, 54, 54, 54, 54, 54, 54, 54, 54,
     54, 54, 54, 54, 54, 54, 54, 54, 54, 54, 54, 54, 54, 54, 54, 54,
     54, 54, 54, 54, 54, 54, 54, 54, 54, 54, 54, 54, 54, 54, 54, 54,
     54, 54, 54, 54, 54, 54, 54, 54, 54, 54, 54, 54, 54, 54, 54, 54,
     97, 108, 105, 99, 101]
   = [22, 159, 36, 21, 14, 158, 107, 33, 43, 178, 22, 38, 19, 248, 176, 212,
     212, 47, 151, 78, 8, 130, 103, 60, 177, 122, 76, 241, 40, 201, 70, 71]"
  by (simp add: sha256_def H256_def unbe32_def inner_j_blocks inner_j_compress1 inner_j_compress2)

lemma outer_j_blocks:
  "blocks (be32 (pad
     [54, 92, 92, 92, 92, 92, 92, 92, 92, 92, 92, 92, 92, 92, 92, 92,
     92, 92, 92, 92, 92, 92, 92, 92, 92, 92, 92, 92, 92, 92, 92, 92,
     92, 92, 92, 92, 92, 92, 92, 92, 92, 92, 92, 92, 92, 92, 92, 92,
     92, 92, 92, 92, 92, 92, 92, 92, 92, 92, 92, 92, 92, 92, 92, 92,
     22, 159, 36, 21, 14, 158, 107, 33, 43, 178, 22, 38, 19, 248, 176, 212,
     212, 47, 151, 78, 8, 130, 103, 60, 177, 122, 76, 241, 40, 201, 70, 71]))
   = [[912022620, 1549556828, 1549556828, 1549556828, 1549556828, 1549556828, 1549556828, 1549556828,
       1549556828, 1549556828, 1549556828, 1549556828, 1549556828, 1549556828, 1549556828, 1549556828],
      [379528213, 245263137, 733091366, 335065300, 3559888718, 142763836, 2977582321, 684279367,
       2147483648, 0, 0, 0, 0, 0, 0, 768]]"
  by (simp add: pad_def Let_def replicate_numeral upt_0_8)

lemma outer_j_compress1:
  "compress [1779033703, 3144134277, 1013904242, 2773480762,
           1359893119, 2600822924, 528734635, 1541459225]
     [912022620, 1549556828, 1549556828, 1549556828, 1549556828, 1549556828, 1549556828, 1549556828,
     1549556828, 1549556828, 1549556828, 1549556828, 1549556828, 1549556828, 1549556828, 1549556828]
   = [842904800, 3162417849, 1261933823, 1284323527,
     489465983, 482831417, 127056478, 3564865922]"
  by (simp only: sha_eval)

lemma outer_j_compress2:
  "compress [842904800, 3162417849, 1261933823, 1284323527,
           489465983, 482831417, 127056478, 3564865922]
     [379528213, 245263137, 733091366, 335065300, 3559888718, 142763836, 2977582321, 684279367,
     2147483648, 0, 0, 0, 0, 0, 0, 768]
   = [1722382444, 4209434651, 3364700279, 3142456995,
     3064367927, 603978805, 4197981714, 2567698450]"
  by (simp only: sha_eval)

lemma outer_j_digest:
  "sha256
     [54, 92, 92, 92, 92, 92, 92, 92, 92, 92, 92, 92, 92, 92, 92, 92,
     92, 92, 92, 92, 92, 92, 92, 92, 92, 92, 92, 92, 92, 92, 92, 92,
     92, 92, 92, 92, 92, 92, 92, 92, 92, 92, 92, 92, 92, 92, 92, 92,
     92, 92, 92, 92, 92, 92, 92, 92, 92, 92, 92, 92, 92, 92, 92, 92,
     22, 159, 36, 21, 14, 158, 107, 33, 43, 178, 22, 38, 19, 248, 176, 212,
     212, 47, 151, 78, 8, 130, 103, 60, 177, 122, 76, 241, 40, 201, 70, 71]
   = [102, 169, 120, 108, 250, 230, 224, 27, 200, 141, 64, 119, 187, 78, 22, 163,
     182, 166, 139, 55, 35, 255, 252, 53, 250, 56, 30, 18, 153, 11, 248, 18]"
  by (simp add: sha256_def H256_def unbe32_def outer_j_blocks outer_j_compress1 outer_j_compress2)

lemma hmac_j:
  "hex_hmac_sha256 ''j'' ''alice'' = ''66a9786cfae6e01bc88d4077bb4e16a3b6a68b3723fffc35fa381e12990bf812''"
  by (simp add: hex_hmac_sha256_def hmac_sha256_def bytes_def Let_def replicate_numeral
      inner_j_digest outer_j_digest hex_def hexdigit_def)

text \<open>
  Claim C8. The digest of a value depends on nothing but the value, the configured secret
  and the configured algorithm: two configurations that agree on the secret and the
  algorithm give the same result for the same value. And the secret matters: under
  \<open>sha256\<close>, the digests of \<open>alice\<close> for the secrets \<open>k\<close> and \<open>j\<close> differ.
\<close>

theorem hash_deterministic:
  "(hash cfg = Some h \<and> hash cfg' = Some h' \<and> secret h = secret h' \<and> algorithm h = algorithm h'
      \<longrightarrow> private_hash rt cfg v = private_hash rt cfg' v)
   \<and> private_hash rt \<lparr>hash = Some \<lparr>secret = Some ''k'', algorithm = Some ''sha256''\<rparr>, logs = lg\<rparr>
         (JString ''alice'')
       \<noteq> private_hash rt \<lparr>hash = Some \<lparr>secret = Some ''j'', algorithm = Some ''sha256''\<rparr>, logs = lg\<rparr>
         (JString ''alice'')"
proof (intro conjI impI)
  assume "hash cfg = Some h \<and> hash cfg' = Some h' \<and> secret h = secret h' \<and> algorithm h = algorithm h'"
  then show "private_hash rt cfg v = private_hash rt cfg' v"
    by (simp add: private_hash_def)
next
  show "private_hash rt \<lparr>hash = Some \<lparr>secret = Some ''k'', algorithm = Some ''sha256''\<rparr>, logs = lg\<rparr>
         (JString ''alice'')
       \<noteq> private_hash rt \<lparr>hash = Some \<lparr>secret = Some ''j'', algorithm = Some ''sha256''\<rparr>, logs = lg\<rparr>
         (JString ''alice'')"
    by (simp add: private_hash_def hmac_update_digest_def createHmac_def hmac_k hmac_j)
qed

theorem hash_deterministic_witness:
  "secret \<lparr>secret = Some ''k'', algorithm = Some ''sha256''\<rparr>
     = secret \<lparr>secret = Some ''k'', algorithm = Some ''sha256''\<rparr>
   \<and> private_hash sample_runtime
        \<lparr>hash = Some \<lparr>secret = Some ''k'', algorithm = Some ''sha256''\<rparr>, logs = None\<rparr>
        (JString ''alice'')
     = private_hash sample_runtime
        \<lparr>hash = Some \<lparr>secret = Some ''k'', algorithm = Some ''sha256''\<rparr>, logs = Some True\<rparr>
        (JString ''alice'')
   \<and> private_hash sample_runtime
        \<lparr>hash = Some \<lparr>secret = Some ''k'', algorithm = Some ''sha256''\<rparr>, logs = Some True\<rparr>
        (JString ''alice'')
     = Inr ''ec631a55bb81f5b9dc96aa930a45628d452abe41f899db1085bc350c0c9cf9a1''"
proof -
  let ?h = "\<lparr>secret = Some ''k'', algorithm = Some ''sha256''\<rparr>"
  have "private_hash sample_runtime \<lparr>hash = Some ?h, logs = None\<rparr> (JString ''alice'')
      = private_hash sample_runtime \<lparr>hash = Some ?h, logs = Some True\<rparr> (JString ''alice'')"
    using hash_deterministic [where cfg = "\<lparr>hash = Some ?h, logs = None\<rparr>" and h = ?h
        and cfg' = "\<lparr>hash = Some ?h, logs = Some True\<rparr>" and h' = ?h
        and rt = sample_runtime and v = "JString ''alice''"]
    by simp
  moreover have "private_hash sample_runtime \<lparr>hash = Some ?h, logs = Some True\<rparr> (JString ''alice'')
      = Inr ''ec631a55bb81f5b9dc96aa930a45628d452abe41f899db1085bc350c0c9cf9a1''"
    by (simp add: private_hash_def hmac_update_digest_def createHmac_def hmac_k)
  ultimately show ?thesis
    by simp
qed

subsection \<open>The scenario of the specification\<close>

text \<open>
  Claim C2. With the secret \<open>k\<close> and the algorithm \<open>sha256\<close> configured, the query
  \<open>SELECT * FROM users WHERE {%login%}={&login&}\<close> with the hash group \<open>{login: "alice"}\<close>
  and an empty other group resolves to \<open>SELECT * FROM users WHERE login=$1\<close> with exactly
  one bind value, the hex HMAC-SHA256 of \<open>alice\<close> under the key \<open>k\<close> (which is
  \<open>ec631a55...f9a1\<close>); this is what \<open>hashQuery\<close> and \<open>hashQuerySync\<close> send to the database.
\<close>

theorem scenario_login:
  "resolve rt \<lparr>hash = Some \<lparr>secret = Some ''k'', algorithm = Some ''sha256''\<rparr>, logs = lg\<rparr>
      ''SELECT * FROM users WHERE {%login%}={&login&}''
      \<lparr>hash_fields = Some [(''login'', JString ''alice'')], other_fields = Some []\<rparr>
     = Inr (''SELECT * FROM users WHERE login=$1'', [JString (hex_hmac_sha256 ''k'' ''alice'')])
   \<and> db_queries (hashQuery rt
        \<lparr>hash = Some \<lparr>secret = Some ''k'', algorithm = Some ''sha256''\<rparr>, logs = lg\<rparr>
        \<lparr>connect_answer = None, connect_error_inline = i, query_answer = a\<rparr>
        ''SELECT * FROM users WHERE {%login%}={&login&}''
        \<lparr>hash_fields = Some [(''login'', JString ''alice'')], other_fields = Some []\<rparr>
        callback error)
     = [(''SELECT * FROM users WHERE login=$1'', [JString (hex_hmac_sha256 ''k'' ''alice'')])]
   \<and> db_queries (fst (hashQuerySync rt
        \<lparr>hash = Some \<lparr>secret = Some ''k'', algorithm = Some ''sha256''\<rparr>, logs = lg\<rparr>
        \<lparr>connect_answer = None, connect_error_inline = i, query_answer = a\<rparr>
        ''SELECT * FROM users WHERE {%login%}={&login&}''
        \<lparr>hash_fields = Some [(''login'', JString ''alice'')], other_fields = Some []\<rparr>))
     = [(''SELECT * FROM users WHERE login=$1'', [JString (hex_hmac_sha256 ''k'' ''alice'')])]
   \<and> hex_hmac_sha256 ''k'' ''alice''
     = ''ec631a55bb81f5b9dc96aa930a45628d452abe41f899db1085bc350c0c9cf9a1''"
proof -
  let ?cfg = "\<lparr>hash = Some \<lparr>secret = Some ''k'', algorithm = Some ''sha256''\<rparr>, logs = lg\<rparr>"
  let ?vals = "\<lparr>hash_fields = Some [(''login'', JString ''alice'')], other_fields = Some []\<rparr>"
  have r: "resolve rt ?cfg ''SELECT * FROM users WHERE {%login%}={&login&}'' ?vals
           = Inr (''SELECT * FROM users WHERE login=$1'', [JString (hex_hmac_sha256 ''k'' ''alice'')])"
    by (simp add: resolve_def check_secret_def private_prepareHashParams_def keys_def get_def
        private_hash_def hmac_update_digest_def createHmac_def replace_marker_def plain_def
        syntax_character_def decimal.simps digit_def)
  from r hashQuery_sends [OF r,
      of "\<lparr>connect_answer = None, connect_error_inline = i, query_answer = a\<rparr>" callback error]
    hmac_k
  show ?thesis
    by simp
qed

subsection \<open>Bind values and placeholders\<close>

lemma marker_text_Cons:
  "\<exists>c. marker_text m n = CHR ''{'' # c # n @ [c, CHR ''}''] \<and> c \<noteq> CHR ''{'' \<and> c \<noteq> CHR ''}''
       \<and> (c = CHR ''%'') = (m = NameMarker)"
  by (cases m) simp_all

lemma replace_all_skip:
  "CHR ''{'' \<notin> set t \<Longrightarrow>
   replace_all (CHR ''{'' # p) r (t @ s) = t @ replace_all (CHR ''{'' # p) r s"
  by (induction t) auto

lemma replace_all_hit:
  "p \<noteq> [] \<Longrightarrow> replace_all p r (p @ s) = r @ replace_all p r s"
  by (cases p) simp_all

lemma plain_no_brace: "plain n \<Longrightarrow> CHR ''{'' \<notin> set n \<and> CHR ''}'' \<notin> set n"
  by (auto simp: plain_def list_all_iff syntax_character_def)

lemma takeWhile_upto:
  "x \<notin> set n \<Longrightarrow> c \<noteq> x \<Longrightarrow> takeWhile (\<lambda>y. y \<noteq> x) (n @ c # x # s) = n @ [c]"
  by (induction n) auto

text \<open>
  A marker's text can begin another marker's text only if the two markers are the same:
  the first closing brace ends both names.
\<close>

lemma marker_prefix:
  assumes "prefix (marker_text m n) (marker_text m' n' @ s)"
    and "CHR ''}'' \<notin> set n" "CHR ''}'' \<notin> set n'"
  shows "m = m' \<and> n = n'"
proof -
  obtain c where c: "marker_text m n = CHR ''{'' # c # n @ [c, CHR ''}'']" "c \<noteq> CHR ''}''"
    "(c = CHR ''%'') = (m = NameMarker)"
    using marker_text_Cons by blast
  obtain c' where c': "marker_text m' n' = CHR ''{'' # c' # n' @ [c', CHR ''}'']" "c' \<noteq> CHR ''}''"
    "(c' = CHR ''%'') = (m' = NameMarker)"
    using marker_text_Cons by blast
  from assms(1) have cc: "c = c'"
    by (simp add: c c')
  from assms(1) have pre: "prefix (n @ [c, CHR ''}'']) (n' @ [c', CHR ''}''] @ s)"
    by (auto simp: c c')
  from cc c(3) c'(3) have m: "m = m'"
    by (cases m; cases m') auto
  from pre obtain z where z: "n' @ [c', CHR ''}''] @ s = (n @ [c, CHR ''}'']) @ z"
    by (auto simp: prefix_def)
  have "takeWhile (\<lambda>x. x \<noteq> CHR ''}'') (n' @ [c', CHR ''}''] @ s) = n' @ [c']"
    using assms(3) c'(2) by (simp add: takeWhile_upto)
  moreover have "takeWhile (\<lambda>x. x \<noteq> CHR ''}'') ((n @ [c, CHR ''}'']) @ z) = n @ [c]"
    using assms(2) c(2) by (simp add: takeWhile_upto)
  ultimately have "n' @ [c'] = n @ [c]"
    using z by simp
  with m show ?thesis by simp
qed

lemma replace_all_miss:
  assumes "(m, n) \<noteq> (m', n')"
    and "CHR ''}'' \<notin> set n" "CHR ''}'' \<notin> set n'" "CHR ''{'' \<notin> set n'"
  shows "replace_all (marker_text m n) r (marker_text m' n' @ s) =
         marker_text m' n' @ replace_all (marker_text m n) r s"
proof -
  obtain c where c: "marker_text m n = CHR ''{'' # c # n @ [c, CHR ''}'']"
    using marker_text_Cons by blast
  obtain c' where c': "marker_text m' n' = CHR ''{'' # c' # n' @ [c', CHR ''}'']" "c' \<noteq> CHR ''{''"
    using marker_text_Cons by blast
  have no: "\<not> prefix (marker_text m n) (marker_text m' n' @ s)"
    using marker_prefix [of m n m' n' s] assms by auto
  have "replace_all (marker_text m n) r (marker_text m' n' @ s) =
        CHR ''{'' # replace_all (marker_text m n) r ((c' # n' @ [c', CHR ''}'']) @ s)"
    using no by (simp add: c')
  also have "\<dots> = CHR ''{'' # (c' # n' @ [c', CHR ''}'']) @ replace_all (marker_text m n) r s"
    unfolding c using replace_all_skip [of "c' # n' @ [c', CHR ''}'']"] assms(4) c'(2)
    by simp
  finally show ?thesis
    by (simp add: c')
qed

text \<open>
  On a well-formed template, the global replace of a marker rewrites exactly the tokens
  that are this marker, all of them, and leaves every other token as it is.
\<close>

lemma replace_all_render:
  assumes "CHR ''}'' \<notin> set n" "list_all well_formed ts"
  shows "replace_all (marker_text m n) r (render ts) =
         render (map (\<lambda>tok. if tok = Mark m n then Text r else tok) ts)"
  using assms(2)
proof (induction ts)
  case Nil
  then show ?case by (simp add: render_def)
next
  case (Cons tok ts)
  then have IH: "replace_all (marker_text m n) r (render ts) =
         render (map (\<lambda>tok. if tok = Mark m n then Text r else tok) ts)"
    by simp
  obtain c where c: "marker_text m n = CHR ''{'' # c # n @ [c, CHR ''}'']"
    using marker_text_Cons by blast
  show ?case
  proof (cases tok)
    case (Text t)
    with Cons.prems have "CHR ''{'' \<notin> set t" by simp
    from replace_all_skip [OF this, of _ r "render ts"] IH Text show ?thesis
      by (simp add: render_def c)
  next
    case (Mark m' n')
    show ?thesis
    proof (cases "(m, n) = (m', n')")
      case True
      have "marker_text m n \<noteq> []" by (simp add: c)
      from replace_all_hit [OF this, of r "render ts"] IH Mark True show ?thesis
        by (simp add: render_def)
    next
      case False
      from Cons.prems Mark have "CHR ''}'' \<notin> set n'" "CHR ''{'' \<notin> set n'"
        by simp_all
      from replace_all_miss [OF False assms(1) this, of r "render ts"] IH Mark False show ?thesis
        by (auto simp: render_def)
    qed
  qed
qed

lemma decimal_digits: "set (decimal n) \<subseteq> set ''0123456789''"
proof (induction n rule: decimal.induct)
  case (1 n)
  have d: "\<And>k. k < 10 \<Longrightarrow> digit k \<in> set ''0123456789''"
    unfolding digit_def by (rule nth_mem) simp
  show ?case
  proof (cases "n < 10")
    case True
    then show ?thesis
      using d [of n] by (subst decimal.simps) simp
  next
    case False
    with "1" have "set (decimal (n div 10)) \<subseteq> set ''0123456789''" by simp
    moreover have "digit (n mod 10) \<in> set ''0123456789''"
      by (rule d) simp
    ultimately show ?thesis
      using False by (subst decimal.simps) simp
  qed
qed

lemma placeholder_no_brace: "CHR ''{'' \<notin> set (''$'' @ decimal n)"
  using decimal_digits [of n] by auto

lemma instantiate_step:
  "instantiate (Suc c) names (step n c tok) = instantiate c (n # names) tok"
proof (cases tok)
  case (Text t)
  then show ?thesis by (simp add: step_def)
next
  case (Mark m k)
  then show ?thesis
    by (cases m) (auto simp: step_def split: option.splits)
qed

lemma instantiate_Nil: "instantiate c [] tok = tok"
proof (cases tok)
  case (Text t)
  then show ?thesis by simp
next
  case (Mark m k)
  then show ?thesis by (cases m) simp_all
qed

lemma well_formed_step:
  "plain n \<Longrightarrow> well_formed tok \<Longrightarrow> well_formed (step n c tok)"
  using plain_no_brace [of n] placeholder_no_brace [of "Suc c"]
  by (auto simp: step_def Let_def)

text \<open>
  The loop of \<open>hashQuery\<close> on a well-formed template, for field names without syntax
  characters: the result is the template instantiated token by token, and \<open>v\<close> has grown
  by the values of all the fields.
\<close>

lemma substitute_render:
  "list_all well_formed ts \<Longrightarrow> list_all plain (map fst ps) \<Longrightarrow>
   substitute rt ps c (render ts) v =
     Inr (render (map (instantiate c (map fst ps)) ts), v @ map snd ps)"
proof (induction ps arbitrary: c ts v)
  case Nil
  have "map (instantiate c []) ts = ts"
    by (rule map_idI) (simp add: instantiate_Nil)
  then show ?case by simp
next
  case (Cons p ps)
  let ?n = "fst p"
  let ?f1 = "\<lambda>tok. if tok = Mark NameMarker ?n then Text ?n else tok"
  let ?f2 = "\<lambda>tok. if tok = Mark ValueMarker ?n then Text (''$'' @ decimal (Suc c)) else tok"
  from Cons.prems have pl: "plain ?n" and pls: "list_all plain (map fst ps)"
    by simp_all
  from pl have nb: "CHR ''}'' \<notin> set ?n" "CHR ''{'' \<notin> set ?n"
    using plain_no_brace by blast+
  have wf1: "list_all well_formed (map ?f1 ts)"
    using Cons.prems(1) nb by (auto simp: list_all_iff)
  have q1: "replace_all (marker_text NameMarker ?n) ?n (render ts) = render (map ?f1 ts)"
    by (rule replace_all_render [OF nb(1) Cons.prems(1)])
  have q2: "replace_all (marker_text ValueMarker ?n) (''$'' @ decimal (Suc c)) (render (map ?f1 ts))
            = render (map ?f2 (map ?f1 ts))"
    by (rule replace_all_render [OF nb(1) wf1])
  have st: "map ?f2 (map ?f1 ts) = map (step ?n c) ts"
    by (simp add: step_def Let_def)
  have wf2: "list_all well_formed (map (step ?n c) ts)"
    using Cons.prems(1) well_formed_step [OF pl] by (auto simp: list_all_iff)
  have "substitute rt (p # ps) c (render ts) v =
        substitute rt ps (Suc c)
          (replace_all (marker_text ValueMarker ?n) (''$'' @ decimal (Suc c))
             (replace_all (marker_text NameMarker ?n) ?n (render ts))) (v @ [snd p])"
    by (simp only: substitute.simps replace_marker_def pl if_True sum.case)
  also have "\<dots> = substitute rt ps (Suc c) (render (map (step ?n c) ts)) (v @ [snd p])"
    by (simp only: q1 q2 st)
  also have "\<dots> = Inr (render (map (instantiate (Suc c) (map fst ps)) (map (step ?n c) ts)),
                       (v @ [snd p]) @ map snd ps)"
    by (rule Cons.IH [OF wf2 pls])
  also have "map (instantiate (Suc c) (map fst ps)) (map (step ?n c) ts)
             = map (instantiate c (map fst (p # ps))) ts"
    by (simp add: instantiate_step)
  finally show ?case by simp
qed

text \<open>
  Claim C4, as stated, fails: a bind value is pushed for every resolved field, also for
  one whose value marker does not occur in the query. One field and a query without
  markers give one bind value and no placeholder.
\<close>

theorem unused_field_counterexample:
  "resolve sample_runtime \<lparr>hash = Some \<lparr>secret = Some ''k'', algorithm = None\<rparr>, logs = None\<rparr>
      ''SELECT 1'' \<lparr>hash_fields = None, other_fields = Some [(''id'', JString ''7'')]\<rparr>
     = Inr (''SELECT 1'', [JString ''7''])
   \<and> \<not> (length [JString ''7''] = length (remdups (placeholders ''SELECT 1'')))"
  by (simp add: resolve_def check_secret_def private_prepareHashParams_def keys_def get_def
      replace_marker_def plain_def syntax_character_def decimal.simps digit_def)

text \<open>
  Claim C4, amended. Whenever the resolver succeeds, its bind values are the values of
  all the resolved fields, in their order: the i-th bind value belongs to the i-th
  resolved field, whether or not a marker of that field occurs in the query, so there are
  as many bind values as resolved fields. On a well-formed template and for field names
  without syntax characters the rewritten query is the template in which every value
  marker of a resolved field has become \<open>$i\<close>, with \<open>i\<close> the (first) position of the field
  in the resolved sequence, counted from 1, every name marker of a resolved field has
  become the name, and nothing else has changed.
\<close>

theorem bind_values_follow_fields:
  "(resolve rt cfg q vals = Inr (q', v) \<longrightarrow>
      (\<exists>ps. private_prepareHashParams rt cfg vals = Inr ps \<and> v = map snd ps))
   \<and> (check_secret cfga = Inr () \<and> private_prepareHashParams rt cfga valsa = Inr psa
        \<and> list_all plain (map fst psa) \<and> list_all well_formed ts \<longrightarrow>
      resolve rt cfga (render ts) valsa =
        Inr (render (map (instantiate 0 (map fst psa)) ts), map snd psa))"
proof (intro conjI impI)
  assume r: "resolve rt cfg q vals = Inr (q', v)"
  then obtain ps where ps: "private_prepareHashParams rt cfg vals = Inr ps"
    and s: "substitute rt ps 0 q [] = Inr (q', v)"
    by (auto simp: resolve_def split: sum.splits)
  from substitute_binds [OF s] ps
  show "\<exists>ps. private_prepareHashParams rt cfg vals = Inr ps \<and> v = map snd ps"
    by simp
next
  assume a: "check_secret cfga = Inr () \<and> private_prepareHashParams rt cfga valsa = Inr psa
        \<and> list_all plain (map fst psa) \<and> list_all well_formed ts"
  then have "substitute rt psa 0 (render ts) [] =
             Inr (render (map (instantiate 0 (map fst psa)) ts), [] @ map snd psa)"
    using substitute_render [of ts psa rt 0 "[]"] by blast
  with a show "resolve rt cfga (render ts) valsa =
        Inr (render (map (instantiate 0 (map fst psa)) ts), map snd psa)"
    by (simp add: resolve_def)
qed

theorem bind_values_follow_fields_witness:
  "check_secret \<lparr>hash = Some \<lparr>secret = Some ''k'', algorithm = Some ''sha256''\<rparr>, logs = None\<rparr>
     = Inr ()
   \<and> list_all plain [''a'', ''b'']
   \<and> list_all well_formed
        [Text ''WHERE '', Mark NameMarker ''a'', Text ''='', Mark ValueMarker ''a'',
         Text '' AND '', Mark NameMarker ''b'', Text ''='', Mark ValueMarker ''b'']
   \<and> resolve sample_runtime
        \<lparr>hash = Some \<lparr>secret = Some ''k'', algorithm = Some ''sha256''\<rparr>, logs = None\<rparr>
        ''WHERE {%a%}={&a&} AND {%b%}={&b&}''
        \<lparr>hash_fields = Some [(''a'', JString ''x'')], other_fields = Some [(''b'', JString ''y'')]\<rparr>
     = Inr (''WHERE a=$1 AND b=$2'', [JString (hex_hmac_sha256 ''k'' ''x''), JString ''y''])
   \<and> (\<exists>ps. private_prepareHashParams sample_runtime
        \<lparr>hash = Some \<lparr>secret = Some ''k'', algorithm = Some ''sha256''\<rparr>, logs = None\<rparr>
        \<lparr>hash_fields = Some [(''a'', JString ''x'')], other_fields = Some [(''b'', JString ''y'')]\<rparr>
          = Inr ps
        \<and> [JString (hex_hmac_sha256 ''k'' ''x''), JString ''y''] = map snd ps)"
proof -
  let ?cfg = "\<lparr>hash = Some \<lparr>secret = Some ''k'', algorithm = Some ''sha256''\<rparr>, logs = None\<rparr>"
  let ?vals = "\<lparr>hash_fields = Some [(''a'', JString ''x'')], other_fields = Some [(''b'', JString ''y'')]\<rparr>"
  let ?ps = "[(''a'', JString (hex_hmac_sha256 ''k'' ''x'')), (''b'', JString ''y'')]"
  let ?ts = "[Text ''WHERE '', Mark NameMarker ''a'', Text ''='', Mark ValueMarker ''a'',
         Text '' AND '', Mark NameMarker ''b'', Text ''='', Mark ValueMarker ''b'']"
  have c: "check_secret ?cfg = Inr ()"
    by (simp add: check_secret_def)
  have p: "private_prepareHashParams sample_runtime ?cfg ?vals = Inr ?ps"
    by (simp add: private_prepareHashParams_def keys_def get_def private_hash_def
        hmac_update_digest_def createHmac_def)
  have pl: "list_all plain (map fst ?ps)"
    by (simp add: plain_def syntax_character_def)
  have wf: "list_all well_formed ?ts"
    by simp
  have "resolve sample_runtime ?cfg (render ?ts) ?vals =
        Inr (render (map (instantiate 0 (map fst ?ps)) ?ts), map snd ?ps)"
    using bind_values_follow_fields [where rt = sample_runtime and cfga = ?cfg and valsa = ?vals
        and psa = ?ps and ts = ?ts] c p pl wf
    by blast
  then have r: "resolve sample_runtime ?cfg ''WHERE {%a%}={&a&} AND {%b%}={&b&}'' ?vals
     = Inr (''WHERE a=$1 AND b=$2'', [JString (hex_hmac_sha256 ''k'' ''x''), JString ''y''])"
    by (simp add: render_def decimal.simps digit_def)
  have "\<exists>ps. private_prepareHashParams sample_runtime ?cfg ?vals = Inr ps
        \<and> [JString (hex_hmac_sha256 ''k'' ''x''), JString ''y''] = map snd ps"
    using bind_values_follow_fields [where rt = sample_runtime and cfg = ?cfg and vals = ?vals
        and q = "''WHERE {%a%}={&a&} AND {%b%}={&b&}''" and q' = "''WHERE a=$1 AND b=$2''"
        and v = "[JString (hex_hmac_sha256 ''k'' ''x''), JString ''y'']"] r
    by blast
  with c pl wf r show ?thesis
    by simp
qed

subsection \<open>Field names in patterns\<close>

text \<open>
  Dots in a field name are wildcards of the pattern: the marker of the name \<open>a.b\<close> also
  matches the marker's text with any other character in the place of the dot.
\<close>

lemma plain_dots_only: "plain n \<Longrightarrow> dots_only n"
  by (simp add: dots_only_def plain_def list_all_iff)

lemma dots_only_append [simp]: "dots_only (xs @ ys) = (dots_only xs \<and> dots_only ys)"
  by (simp add: dots_only_def plain_def)

lemma dots_only_dot [simp]: "dots_only (CHR ''.'' # xs) = dots_only xs"
  by (simp add: dots_only_def)

lemma not_plain_dot: "\<not> plain (a @ CHR ''.'' # b)"
  by (simp add: plain_def syntax_character_def)

lemma wild_match_self: "wild_match p (p @ s)"
  by (induction p) simp_all

lemma wild_match_dot:
  "c \<noteq> CHR 0x0A \<Longrightarrow> c \<noteq> CHR 0x0D \<Longrightarrow> wild_match (a @ CHR ''.'' # b) (a @ c # b @ s)"
  by (induction a) (simp_all add: wild_match_self)

lemma wild_replace_whole:
  "p \<noteq> [] \<Longrightarrow> wild_match p s \<Longrightarrow> length s = length p \<Longrightarrow> wild_replace p r s = r"
  by (cases s) simp_all

lemma replace_all_short: "length s < length p \<Longrightarrow> replace_all p r s = s"
proof (induction s)
  case Nil
  then show ?case by simp
next
  case (Cons c cs)
  from Cons.prems have "\<not> prefix p (c # cs)"
    by (auto dest: prefix_length_le)
  with Cons show ?case
    by simp
qed

lemma replace_all_other:
  "length s = length p \<Longrightarrow> s \<noteq> p \<Longrightarrow> replace_all p r s = s"
proof (cases s)
  case Nil
  then show ?thesis by simp
next
  case (Cons c cs)
  assume l: "length s = length p" and n: "s \<noteq> p"
  have "\<not> prefix p s"
  proof
    assume "prefix p s"
    then obtain t where "s = p @ t"
      by (auto simp: prefix_def)
    with l n show False
      by simp
  qed
  with Cons l show ?thesis
    by (simp add: replace_all_short)
qed

lemma marker_text_split: "\<exists>pre post. \<forall>n. marker_text m n = pre @ n @ post"
proof (cases m)
  case NameMarker
  then have "\<forall>n. marker_text m n = ''{%'' @ n @ ''%}''"
    by simp
  then show ?thesis
    by blast
next
  case ValueMarker
  then have "\<forall>n. marker_text m n = ''{&'' @ n @ ''&}''"
    by simp
  then show ?thesis
    by blast
qed

lemma marker_wildcard:
  assumes "dots_only a" "dots_only b" "c \<noteq> CHR ''.''" "c \<noteq> CHR 0x0A" "c \<noteq> CHR 0x0D"
  shows "replace_marker rt m (a @ ''.'' @ b) r (marker_text m (a @ [c] @ b)) = Inr r"
    and "replace_all (marker_text m (a @ ''.'' @ b)) r (marker_text m (a @ [c] @ b))
         = marker_text m (a @ [c] @ b)"
proof -
  obtain pre post where mt: "\<And>n. marker_text m n = pre @ n @ post"
    using marker_text_split by blast
  have p: "marker_text m (a @ ''.'' @ b) = (pre @ a) @ CHR ''.'' # (b @ post)"
    and s: "marker_text m (a @ [c] @ b) = (pre @ a) @ c # (b @ post) @ []"
    by (simp_all add: mt)
  have wm: "wild_match (marker_text m (a @ ''.'' @ b)) (marker_text m (a @ [c] @ b))"
    unfolding p s using assms(4,5) by (rule wild_match_dot)
  have len: "length (marker_text m (a @ [c] @ b)) = length (marker_text m (a @ ''.'' @ b))"
    unfolding p s by simp
  have ne: "marker_text m (a @ ''.'' @ b) \<noteq> []"
    unfolding p by simp
  have "wild_replace (marker_text m (a @ ''.'' @ b)) r (marker_text m (a @ [c] @ b)) = r"
    using ne wm len by (rule wild_replace_whole)
  with assms(1,2) show "replace_marker rt m (a @ ''.'' @ b) r (marker_text m (a @ [c] @ b)) = Inr r"
    by (simp add: replace_marker_def not_plain_dot del: marker_text.simps)
  have "marker_text m (a @ [c] @ b) \<noteq> marker_text m (a @ ''.'' @ b)"
    unfolding p s using assms(3) by simp
  with len show "replace_all (marker_text m (a @ ''.'' @ b)) r (marker_text m (a @ [c] @ b))
         = marker_text m (a @ [c] @ b)"
    by (rule replace_all_other)
qed

text \<open>
  A pattern that the engine rejects ends the loop, whichever field it belongs to and
  whichever of the two markers it is.
\<close>

lemma substitute_rejected:
  "p \<in> set ps \<Longrightarrow> \<not> dots_only (fst p) \<Longrightarrow>
   \<forall>r s. \<exists>e. regexp_replace rt (marker_text m (fst p)) r s = Inl e \<Longrightarrow>
   \<exists>e. substitute rt ps c q v = Inl e"
proof (induction ps arbitrary: c q v)
  case Nil
  then show ?case by simp
next
  case (Cons x xs)
  show ?case
  proof (cases "replace_marker rt NameMarker (fst x) (fst x) q")
    case (Inl e)
    then show ?thesis by simp
  next
    case n: (Inr q1)
    show ?thesis
    proof (cases "replace_marker rt ValueMarker (fst x) (''$'' @ decimal (Suc c)) q1")
      case (Inl e)
      with n show ?thesis by simp
    next
      case vl: (Inr q2)
      have "p \<noteq> x"
      proof
        assume px: "p = x"
        with Cons.prems(2) have np: "\<not> plain (fst x)" "\<not> dots_only (fst x)"
          using plain_dots_only by auto
        from Cons.prems(3) px obtain e1 e2 where
          "regexp_replace rt (marker_text m (fst x)) (fst x) q = Inl e1"
          "regexp_replace rt (marker_text m (fst x)) (''$'' @ decimal (Suc c)) q1 = Inl e2"
          by blast
        with n vl np show False
          by (cases m) (simp_all add: replace_marker_def del: marker_text.simps)
      qed
      with Cons.prems(1) have "p \<in> set xs"
        by simp
      from Cons.IH [OF this Cons.prems(2,3)] obtain e where
        "substitute rt xs (Suc c) q2 (v @ [snd x]) = Inl e"
        by blast
      with n vl show ?thesis
        by simp
    qed
  qed
qed

lemma substitute_bad_pattern:
  "\<not> dots_only (fst p) \<Longrightarrow>
   regexp_replace rt (marker_text NameMarker (fst p)) (fst p) q = Inl e \<Longrightarrow>
   substitute rt (p # ps) c q v = Inl e"
  using plain_dots_only [of "fst p"]
  by (auto simp add: replace_marker_def simp del: marker_text.simps)

text \<open>
  Claim C10. A field name goes into the pattern unescaped. For a name without syntax
  characters the replacement is the literal one, of all occurrences: on a well-formed
  template exactly the tokens that are the marker are rewritten. A name with a syntax
  character is matched as a pattern and not as text: with a dot in the name, the marker
  also matches (and the replacement then rewrites) the text that has any other character
  but a line terminator in the place of the dot, which a literal replacement leaves
  alone. When the engine rejects the pattern made from the name of any of the resolved
  fields, for either marker, the call fails: the error goes to the error handler of
  \<open>hashQuery\<close>, without one nothing happens, \<open>hashQuerySync\<close> returns \<open>undefined\<close>, and no
  statement reaches the database. When it is the name marker of the first resolved field
  that is rejected, the error of the call is the error of the engine.
\<close>

theorem field_names_unescaped:
  "(plain n \<longrightarrow> replace_marker rt m n r q = Inr (replace_all (marker_text m n) r q))
   \<and> (plain n \<and> list_all well_formed ts \<longrightarrow>
        replace_marker rt m n r (render ts) =
          Inr (render (map (\<lambda>tok. if tok = Mark m n then Text r else tok) ts)))
   \<and> (dots_only a \<and> dots_only b \<and> c \<noteq> CHR ''.'' \<and> c \<noteq> CHR 0x0A \<and> c \<noteq> CHR 0x0D \<longrightarrow>
        \<not> plain (a @ ''.'' @ b)
        \<and> replace_marker rt m (a @ ''.'' @ b) r (marker_text m (a @ [c] @ b)) = Inr r
        \<and> replace_all (marker_text m (a @ ''.'' @ b)) r (marker_text m (a @ [c] @ b))
            = marker_text m (a @ [c] @ b))
   \<and> (check_secret cfg = Inr () \<and> private_prepareHashParams rt cfg vals = Inr ps
        \<and> p \<in> set ps \<and> \<not> dots_only (fst p)
        \<and> (\<forall>r s. \<exists>e. regexp_replace rt (marker_text mk (fst p)) r s = Inl e) \<longrightarrow>
        (\<exists>e. resolve rt cfg qe vals = Inl e
           \<and> hashQuery rt cfg env qe vals callback Function = [ErrorHandler e])
        \<and> hashQuery rt cfg env qe vals callback NotFunction = []
        \<and> db_queries (hashQuery rt cfg env qe vals callback error) = []
        \<and> db_queries (fst (hashQuerySync rt cfg env qe vals)) = []
        \<and> snd (hashQuerySync rt cfg env qe vals) = Returns JUndefined)
   \<and> (check_secret cfgf = Inr () \<and> private_prepareHashParams rt cfgf valsf = Inr (pf # psf)
        \<and> \<not> dots_only (fst pf)
        \<and> regexp_replace rt (marker_text NameMarker (fst pf)) (fst pf) qf = Inl ef \<longrightarrow>
        resolve rt cfgf qf valsf = Inl ef
        \<and> hashQuery rt cfgf env qf valsf callback Function = [ErrorHandler ef]
        \<and> db_queries (fst (hashQuerySync rt cfgf env qf valsf)) = []
        \<and> snd (hashQuerySync rt cfgf env qf valsf) = Returns JUndefined)"
proof (intro conjI impI)
  assume "plain n"
  then show "replace_marker rt m n r q = Inr (replace_all (marker_text m n) r q)"
    by (simp add: replace_marker_def)
next
  assume a: "plain n \<and> list_all well_formed ts"
  then have "CHR ''}'' \<notin> set n"
    using plain_no_brace by blast
  from replace_all_render [OF this, of ts m r] a
  show "replace_marker rt m n r (render ts) =
          Inr (render (map (\<lambda>tok. if tok = Mark m n then Text r else tok) ts))"
    by (simp add: replace_marker_def del: marker_text.simps)
next
  show "\<not> plain (a @ ''.'' @ b)"
    by (simp add: not_plain_dot)
next
  assume d: "dots_only a \<and> dots_only b \<and> c \<noteq> CHR ''.'' \<and> c \<noteq> CHR 0x0A \<and> c \<noteq> CHR 0x0D"
  then show "replace_marker rt m (a @ ''.'' @ b) r (marker_text m (a @ [c] @ b)) = Inr r"
    using marker_wildcard(1) by blast
  from d show "replace_all (marker_text m (a @ ''.'' @ b)) r (marker_text m (a @ [c] @ b))
            = marker_text m (a @ [c] @ b)"
    using marker_wildcard(2) by blast
next
  assume a: "check_secret cfg = Inr () \<and> private_prepareHashParams rt cfg vals = Inr ps
        \<and> p \<in> set ps \<and> \<not> dots_only (fst p)
        \<and> (\<forall>r s. \<exists>e. regexp_replace rt (marker_text mk (fst p)) r s = Inl e)"
  then obtain e where "substitute rt ps 0 qe [] = Inl e"
    using substitute_rejected [of p ps rt mk 0 qe "[]"] by blast
  with a have r: "resolve rt cfg qe vals = Inl e"
    by (simp add: resolve_def)
  then have "hashQuery rt cfg env qe vals callback Function = [ErrorHandler e]"
    by (simp add: hashQuery_def)
  with r show "\<exists>e. resolve rt cfg qe vals = Inl e
           \<and> hashQuery rt cfg env qe vals callback Function = [ErrorHandler e]"
    by blast
  from r show "hashQuery rt cfg env qe vals callback NotFunction = []"
    by (simp add: hashQuery_def)
  from failed_resolve_no_query [OF r]
  show "db_queries (hashQuery rt cfg env qe vals callback error) = []"
    and "db_queries (fst (hashQuerySync rt cfg env qe vals)) = []"
    and "snd (hashQuerySync rt cfg env qe vals) = Returns JUndefined"
    by simp_all
next
  assume a: "check_secret cfgf = Inr () \<and> private_prepareHashParams rt cfgf valsf = Inr (pf # psf)
        \<and> \<not> dots_only (fst pf)
        \<and> regexp_replace rt (marker_text NameMarker (fst pf)) (fst pf) qf = Inl ef"
  then have s: "substitute rt (pf # psf) 0 qf [] = Inl ef"
    using substitute_bad_pattern by blast
  with a have r: "resolve rt cfgf qf valsf = Inl ef"
    by (simp add: resolve_def)
  then show "resolve rt cfgf qf valsf = Inl ef" .
  from r show "hashQuery rt cfgf env qf valsf callback Function = [ErrorHandler ef]"
    by (simp add: hashQuery_def)
  from failed_resolve_no_query [OF r]
  show "db_queries (fst (hashQuerySync rt cfgf env qf valsf)) = []"
    and "snd (hashQuerySync rt cfgf env qf valsf) = Returns JUndefined"
    by simp_all
qed

text \<open>
  Runs with the small runtime. The name \<open>id\<close> is replaced literally. The name \<open>a.b\<close> makes
  a pattern whose dot matches any character, so that \<open>{%axb%}\<close> is rewritten although the
  marker \<open>{%a.b%}\<close> does not occur. The name \<open>(\<close> makes a pattern that the constructor
  rejects: the call fails when the field is the second of two, and when it is the only one.
\<close>

theorem field_names_unescaped_witness:
  "plain ''id''
   \<and> replace_marker sample_runtime NameMarker ''id'' ''id'' ''SELECT {%id%} FROM t WHERE {%id%}=1''
       = Inr ''SELECT id FROM t WHERE id=1''
   \<and> list_all well_formed [Text ''WHERE id='', Mark ValueMarker ''id'', Text '' OR '',
        Mark ValueMarker ''id'', Text ''=0'']
   \<and> replace_marker sample_runtime ValueMarker ''id'' ''$1'' ''WHERE id={&id&} OR {&id&}=0''
       = Inr ''WHERE id=$1 OR $1=0''
   \<and> dots_only ''a'' \<and> dots_only ''b'' \<and> \<not> plain ''a.b''
   \<and> replace_marker sample_runtime NameMarker ''a.b'' ''a.b'' ''{%axb%}'' = Inr ''a.b''
   \<and> replace_all ''{%a.b%}'' ''a.b'' ''{%axb%}'' = ''{%axb%}''
   \<and> replace_marker sample_runtime NameMarker ''a.b'' ''a.b'' ''SELECT {%axb%} FROM t''
       = Inr ''SELECT a.b FROM t''
   \<and> \<not> dots_only ''(''
   \<and> (\<forall>r s. regexp_replace sample_runtime (marker_text NameMarker ''('') r s
               = Inl (SyntaxError ''Unterminated group''))
   \<and> private_prepareHashParams sample_runtime
        \<lparr>hash = Some \<lparr>secret = Some ''k'', algorithm = None\<rparr>, logs = None\<rparr>
        \<lparr>hash_fields = None, other_fields = Some [(''id'', JString ''7''), (''('', JString ''1'')]\<rparr>
       = Inr [(''id'', JString ''7''), (''('', JString ''1'')]
   \<and> hashQuery sample_runtime \<lparr>hash = Some \<lparr>secret = Some ''k'', algorithm = None\<rparr>, logs = None\<rparr>
        \<lparr>connect_answer = None, connect_error_inline = False, query_answer = Inr [''row'']\<rparr>
        ''SELECT {%id%} FROM t WHERE {%(%}={&(&}''
        \<lparr>hash_fields = None, other_fields = Some [(''id'', JString ''7''), (''('', JString ''1'')]\<rparr>
        Function Function
       = [ErrorHandler (SyntaxError ''Unterminated group'')]
   \<and> hashQuery sample_runtime \<lparr>hash = Some \<lparr>secret = Some ''k'', algorithm = None\<rparr>, logs = None\<rparr>
        \<lparr>connect_answer = None, connect_error_inline = False, query_answer = Inr [''row'']\<rparr>
        ''SELECT {%id%} FROM t WHERE {%(%}={&(&}''
        \<lparr>hash_fields = None, other_fields = Some [(''id'', JString ''7''), (''('', JString ''1'')]\<rparr>
        Function NotFunction
       = []
   \<and> hashQuerySync sample_runtime \<lparr>hash = Some \<lparr>secret = Some ''k'', algorithm = None\<rparr>, logs = None\<rparr>
        \<lparr>connect_answer = None, connect_error_inline = False, query_answer = Inr [''row'']\<rparr>
        ''SELECT {%id%} FROM t WHERE {%(%}={&(&}''
        \<lparr>hash_fields = None, other_fields = Some [(''id'', JString ''7''), (''('', JString ''1'')]\<rparr>
       = ([ConsoleLogParams [(''id'', JString ''7''), (''('', JString ''1'')],
           ConsoleLogError (SyntaxError ''Unterminated group'')],
          Returns JUndefined)
   \<and> hashQuery sample_runtime \<lparr>hash = Some \<lparr>secret = Some ''k'', algorithm = None\<rparr>, logs = None\<rparr>
        \<lparr>connect_answer = None, connect_error_inline = False, query_answer = Inr [''row'']\<rparr>
        ''SELECT {%(%}''
        \<lparr>hash_fields = None, other_fields = Some [(''('', JString ''1'')]\<rparr> Function Function
       = [ErrorHandler (SyntaxError ''Unterminated group'')]"
proof -
  let ?cfg = "\<lparr>hash = Some \<lparr>secret = Some ''k'', algorithm = None\<rparr>, logs = None\<rparr>"
  let ?env = "\<lparr>connect_answer = None, connect_error_inline = False, query_answer = Inr [''row'']\<rparr>"
  let ?vals = "\<lparr>hash_fields = None, other_fields = Some [(''id'', JString ''7''), (''('', JString ''1'')]\<rparr>"
  let ?valsf = "\<lparr>hash_fields = None, other_fields = Some [(''('', JString ''1'')]\<rparr>"
  let ?q = "''SELECT {%id%} FROM t WHERE {%(%}={&(&}''"
  let ?ts = "[Text ''WHERE id='', Mark ValueMarker ''id'', Text '' OR '',
        Mark ValueMarker ''id'', Text ''=0'']"
  let ?err = "SyntaxError ''Unterminated group''"
  have p1: "plain ''id''" and p2: "\<not> plain ''a.b''" and p3: "\<not> plain ''(''"
    by (simp_all add: plain_def syntax_character_def)
  have d1: "dots_only ''a''" and d2: "dots_only ''b''" and d3: "\<not> dots_only ''(''"
    and d4: "dots_only ''a.b''"
    by (simp_all add: dots_only_def plain_def syntax_character_def)
  have wf: "list_all well_formed ?ts"
    by simp
  have c: "check_secret ?cfg = Inr ()"
    by (simp add: check_secret_def)
  have pp: "private_prepareHashParams sample_runtime ?cfg ?vals
            = Inr [(''id'', JString ''7''), (''('', JString ''1'')]"
    by (simp add: private_prepareHashParams_def keys_def get_def)
  have ppf: "private_prepareHashParams sample_runtime ?cfg ?valsf = Inr [(''('', JString ''1'')]"
    by (simp add: private_prepareHashParams_def keys_def get_def)
  have bad: "\<forall>r s. regexp_replace sample_runtime (marker_text NameMarker ''('') r s = Inl ?err"
    by (simp add: sample_runtime_def sample_regexp_def)
  note t = field_names_unescaped [where rt = sample_runtime and n = "''id''" and m = ValueMarker
      and r = "''$1''" and ts = ?ts and cfg = ?cfg and vals = ?vals
      and ps = "[(''id'', JString ''7''), (''('', JString ''1'')]"
      and p = "(''('', JString ''1'')" and mk = NameMarker and qe = ?q
      and env = ?env and callback = Function and error = Function
      and cfgf = ?cfg and valsf = ?valsf and pf = "(''('', JString ''1'')" and psf = "[]"
      and qf = "''SELECT {%(%}''" and ef = ?err]
  have a1: "replace_marker sample_runtime NameMarker ''id'' ''id'' ''SELECT {%id%} FROM t WHERE {%id%}=1''
       = Inr ''SELECT id FROM t WHERE id=1''"
    using field_names_unescaped [where rt = sample_runtime and n = "''id''" and m = NameMarker
        and r = "''id''" and q = "''SELECT {%id%} FROM t WHERE {%id%}=1''"] p1
    by simp
  have a2: "replace_marker sample_runtime ValueMarker ''id'' ''$1'' ''WHERE id={&id&} OR {&id&}=0''
       = Inr ''WHERE id=$1 OR $1=0''"
  proof -
    from t p1 wf have "replace_marker sample_runtime ValueMarker ''id'' ''$1'' (render ?ts) =
          Inr (render (map (\<lambda>tok. if tok = Mark ValueMarker ''id'' then Text ''$1'' else tok) ?ts))"
      by blast
    then show ?thesis
      by (simp add: render_def)
  qed
  have b: "replace_marker sample_runtime NameMarker ''a.b'' ''a.b'' ''{%axb%}'' = Inr ''a.b''"
    and lit: "replace_all ''{%a.b%}'' ''a.b'' ''{%axb%}'' = ''{%axb%}''"
    using field_names_unescaped [where rt = sample_runtime and a = "''a''" and b = "''b''"
        and c = "CHR ''x''" and m = NameMarker and r = "''a.b''"] d1 d2
    by simp_all
  have b': "replace_marker sample_runtime NameMarker ''a.b'' ''a.b'' ''SELECT {%axb%} FROM t''
       = Inr ''SELECT a.b FROM t''"
    using p2 d4 by (simp add: replace_marker_def)
  have res: "resolve sample_runtime ?cfg ?q ?vals = Inl ?err"
    using c pp p1 p3 d3 bad
    by (simp add: resolve_def replace_marker_def decimal.simps digit_def del: marker_text.simps)
  have g: "(\<exists>e. resolve sample_runtime ?cfg ?q ?vals = Inl e
             \<and> hashQuery sample_runtime ?cfg ?env ?q ?vals Function Function = [ErrorHandler e])
           \<and> hashQuery sample_runtime ?cfg ?env ?q ?vals Function NotFunction = []
           \<and> db_queries (fst (hashQuerySync sample_runtime ?cfg ?env ?q ?vals)) = []
           \<and> snd (hashQuerySync sample_runtime ?cfg ?env ?q ?vals) = Returns JUndefined"
  proof -
    have "(''('', JString ''1'') \<in> set [(''id'', JString ''7''), (''('', JString ''1'')]"
      by simp
    moreover have "\<forall>r s. \<exists>e. regexp_replace sample_runtime
        (marker_text NameMarker (fst (''('', JString ''1''))) r s = Inl e"
      using bad by simp
    moreover have "\<not> dots_only (fst (''('', JString ''1''))"
      using d3 by simp
    ultimately show ?thesis
      using t c pp by blast
  qed
  from g res have h1: "hashQuery sample_runtime ?cfg ?env ?q ?vals Function Function = [ErrorHandler ?err]"
    by auto
  from g have h2: "hashQuery sample_runtime ?cfg ?env ?q ?vals Function NotFunction = []"
    by blast
  have h3: "hashQuerySync sample_runtime ?cfg ?env ?q ?vals
       = ([ConsoleLogParams [(''id'', JString ''7''), (''('', JString ''1'')], ConsoleLogError ?err],
          Returns JUndefined)"
    using c pp res by (simp add: hashQuerySync_def resolve_def)
  have h4: "hashQuery sample_runtime ?cfg ?env ''SELECT {%(%}'' ?valsf Function Function
       = [ErrorHandler ?err]"
  proof -
    have "regexp_replace sample_runtime (marker_text NameMarker (fst (''('', JString ''1'')))
            (fst (''('', JString ''1'')) ''SELECT {%(%}'' = Inl ?err"
      using bad by simp
    moreover have "\<not> dots_only (fst (''('', JString ''1''))"
      using d3 by simp
    ultimately show ?thesis
      using t c ppf by blast
  qed
  from p1 a1 wf a2 d1 d2 p2 b lit b' d3 bad pp h1 h2 h3 h4 show ?thesis
    by blast
qed
end
